theory Spec2Isabelle
  imports Complex_Main "HOL-Library.Word" "HOL-Library.Log_Nat" "HOL-Library.Multiset"
begin

section \<open>Python values and exceptions\<close>

text \<open>
  The development embeds \<^verbatim>\<open>src/python/bin/genDataSet.py\<close>.  Every exception the
  script can raise is a value of \<open>error\<close>; a computation that may raise returns
  \<open>error + 'a\<close> with \<open>Inl\<close> for the exception.  \<open>Error\<close> is the script's own
  exception class; the others are built-in Python exceptions.
\<close>

datatype error =
    Error
  | TypeError
  | ValueError
  | IndexError
  | AttributeError
  | OverflowError
  | FileNotFoundError
  | FileExistsError
  | IsADirectoryError
  | NotADirectoryError
  | SameFileError
  | OSError

type_synonym byte = "8 word"

text \<open>A value handed to a file's \<^verbatim>\<open>write\<close>: a text string or a bytes object.\<close>

datatype pydata = PyStr string | PyBytes "byte list"

text \<open>Subscripting a sequence, \<^verbatim>\<open>seq[i]\<close>; an index below zero is taken from the end.\<close>

definition py_index :: "'a list \<Rightarrow> int \<Rightarrow> error + 'a" where
  "py_index xs i =
     (if 0 \<le> i \<and> i < int (length xs) then Inr (xs ! nat i)
      else if i < 0 \<and> - int (length xs) \<le> i then Inr (xs ! nat (int (length xs) + i))
      else Inl IndexError)"

section \<open>Double-precision arithmetic\<close>

text \<open>
  Python floats are IEEE 754 binary64 numbers.  A finite double is modelled by the
  rational it denotes; every operation computes the exact rational result and rounds it
  to the nearest double, ties to even (53-bit significand, least exponent \<open>-1022\<close>, so
  subnormals are spaced \<open>2 powi -1074\<close> apart).  Results beyond the largest double
  are infinities; wherever one arises in the script the next step raises
  \<^verbatim>\<open>OverflowError\<close>.
\<close>

definition ilog2 :: "rat \<Rightarrow> int" where
  \<comment> \<open>\<open>\<lfloor>log\<^sub>2 x\<rfloor>\<close> for positive \<open>x\<close>\<close>
  "ilog2 x = (let (a, b) = quotient_of x; d = bitlen a - bitlen b
              in if 2 powi d \<le> x then d else d - 1)"

definition rne :: "rat \<Rightarrow> int" where
  \<comment> \<open>round to the nearest integer, ties to even\<close>
  "rne x = (let f = \<lfloor>x\<rfloor>; r = x - of_int f
            in if r < 1 / 2 then f else if 1 / 2 < r then f + 1
               else if even f then f else f + 1)"

definition round_double :: "rat \<Rightarrow> rat" where
  "round_double x =
     (if x = 0 then 0
      else let u = 2 powi (max (ilog2 \<bar>x\<bar>) (- 1022) - 52)
           in of_int (rne (x / u)) * u)"

definition max_double :: rat where
  "max_double = (2 ^ 53 - 1) * 2 ^ 971"

definition py_float :: "int \<Rightarrow> error + rat" where
  \<comment> \<open>\<^verbatim>\<open>float(i)\<close> for an int \<open>i\<close>\<close>
  "py_float i = (let r = round_double (of_int i)
                 in if max_double < \<bar>r\<bar> then Inl OverflowError else Inr r)"

definition float_div :: "rat \<Rightarrow> rat \<Rightarrow> rat" where
  \<comment> \<open>\<^verbatim>\<open>a / b\<close> on floats, for a non-zero divisor of magnitude at least one\<close>
  "float_div a b = round_double (a / b)"

definition float_mul :: "rat \<Rightarrow> rat \<Rightarrow> rat" where
  \<comment> \<open>the exact rounded product; it is an infinity when beyond \<open>max_double\<close>\<close>
  "float_mul a b = round_double (a * b)"

definition math_floor :: "rat \<Rightarrow> error + int" where
  \<comment> \<open>\<^verbatim>\<open>int(math.floor(x))\<close>; an infinite argument raises\<close>
  "math_floor x = (if max_double < \<bar>x\<bar> then Inl OverflowError else Inr \<lfloor>x\<rfloor>)"

section \<open>The pseudo-random generator\<close>

text \<open>
  \<^verbatim>\<open>numpy.random.RandomState\<close> is an external library object.  Its methods are
  parameters of the model: a record of functions over an abstract generator state
  \<open>'s\<close>, each returning either the exception it raises or its result and the next
  state.
\<close>

record 's numpy_RandomState =
  np_seed :: "32 word list \<Rightarrow> error + 's"
  np_randint :: "int \<Rightarrow> 's \<Rightarrow> error + int \<times> 's"
  np_randint_size :: "int \<Rightarrow> nat \<Rightarrow> 's \<Rightarrow> error + int list \<times> 's"
  np_random_integers :: "int \<Rightarrow> int \<Rightarrow> 's \<Rightarrow> error + int \<times> 's"
  np_bytes :: "int \<Rightarrow> 's \<Rightarrow> error + byte list \<times> 's"

definition RandomState_init :: "'s numpy_RandomState \<Rightarrow> int \<Rightarrow> error + 's" where
  \<comment> \<open>\<^verbatim>\<open>RandomState.__init__\<close>: the int seed is stored as a 64-bit array and viewed as
      two unsigned 32-bit words, low word first; an int outside the 64-bit range gives
      an object array, which cannot be viewed\<close>
  "RandomState_init np seed =
     (if - (2 ^ 63) \<le> seed \<and> seed < 2 ^ 64
      then np_seed np [word_of_int seed, word_of_int (seed div 2 ^ 32)]
      else Inl TypeError)"

definition choice :: "'s numpy_RandomState \<Rightarrow> 'a list \<Rightarrow> 's \<Rightarrow> error + 'a \<times> 's" where
  "choice np seq rng =
     (case np_randint np (int (length seq)) rng of
        Inl e \<Rightarrow> Inl e
      | Inr (i, rng') \<Rightarrow>
          (case py_index seq i of Inl e \<Rightarrow> Inl e | Inr x \<Rightarrow> Inr (x, rng')))"

definition view_int64 :: "int list \<Rightarrow> int" where
  \<comment> \<open>\<^verbatim>\<open>.astype(numpy.int8).view(numpy.int64)[0]\<close>: eight bytes, least significant first,
      read as one signed 64-bit integer\<close>
  "view_int64 vs = sint (word_of_int (foldr (\<lambda>v acc. v mod 256 + 256 * acc) vs 0) :: 64 word)"

definition randomSeed :: "'s numpy_RandomState \<Rightarrow> 's \<Rightarrow> error + int \<times> 's" where
  "randomSeed np rng =
     (case np_randint_size np 256 8 rng of
        Inl e \<Rightarrow> Inl e
      | Inr (vs, rng') \<Rightarrow> Inr (view_int64 vs, rng'))"

section \<open>Configuration\<close>

record category =
  cat_min :: int
  cat_max :: int
  cat_num :: int
  cat_numCoalescent :: int
  cat_coalescent :: int

text \<open>
  The global \<^verbatim>\<open>gen\<close> configuration, one field per property the generator reads:
  \<open>gen_dirs_num\<close> is \<^verbatim>\<open>gen.dirs.num\<close>, and so on.  \<^verbatim>\<open>Config.__setattr__\<close> coerces
  every assigned value to the type of the default, so the numeric properties are ints.
\<close>

record config =
  gen_huge :: category
  gen_large :: category
  gen_medium :: category
  gen_small :: category
  gen_copied_num :: int
  gen_copied_sourceDir :: string
  gen_root_dir :: string
  gen_dirs_num :: int
  gen_dirs_maxDepth :: int
  gen_compressible_percentage :: int
  gen_compressible_blockSize :: int
  gen_readable_filenames :: bool
  gen_fsync :: bool
  gen_truncate :: bool
  gen_randseed :: int
  gen_name_prefix :: string

definition KB :: int where "KB = 1024"

definition MAX_CHUNK_SIZE :: int where "MAX_CHUNK_SIZE = 64 * KB"

section \<open>The chunk generator\<close>

text \<open>
  \<^verbatim>\<open>FileNode.generateChunks\<close> is a Python generator.  Its local variables form the
  record \<open>chunk_gen\<close>; \<open>generateChunks_start\<close> runs the body up to the loop and
  \<open>generateChunks_next\<close> runs one iteration, returning the chunk it yields, or
  \<open>None\<close> when the loop ends.
\<close>

record 's chunk_gen =
  cg_rng :: 's
  cg_maxChunkSize :: int
  cg_rate :: rat
  cg_remaining :: int

definition compressSize :: "int \<Rightarrow> rat \<Rightarrow> error + int" where
  \<comment> \<open>\<^verbatim>\<open>int(math.floor(chunkSize * (rate / 100.0)))\<close>\<close>
  "compressSize chunkSize rate =
     (case py_float chunkSize of
        Inl e \<Rightarrow> Inl e
      | Inr c \<Rightarrow> math_floor (float_mul c (float_div rate 100)))"

definition generateChunks_start ::
  "'s numpy_RandomState \<Rightarrow> config \<Rightarrow> int \<Rightarrow> int \<Rightarrow> error + 's chunk_gen" where
  "generateChunks_start np gen fileSeed fileSize =
     (case RandomState_init np fileSeed of
        Inl e \<Rightarrow> Inl e
      | Inr rng \<Rightarrow>
          (case py_float (gen_compressible_percentage gen) of
             Inl e \<Rightarrow> Inl e
           | Inr rate \<Rightarrow>
               Inr \<lparr>cg_rng = rng,
                    cg_maxChunkSize =
                      (if 0 < rate then gen_compressible_blockSize gen else MAX_CHUNK_SIZE),
                    cg_rate = rate,
                    cg_remaining = fileSize\<rparr>))"

definition generateChunks_next ::
  "'s numpy_RandomState \<Rightarrow> 's chunk_gen \<Rightarrow> error + (byte list \<times> 's chunk_gen) option" where
  "generateChunks_next np g =
     (if 0 < cg_remaining g then
        let chunkSize = min (cg_remaining g) (cg_maxChunkSize g);
            remaining = cg_remaining g - chunkSize
        in case compressSize chunkSize (cg_rate g) of
             Inl e \<Rightarrow> Inl e
           | Inr k \<Rightarrow>
               (case np_bytes np (chunkSize - k) (cg_rng g) of
                  Inl e \<Rightarrow> Inl e
                | Inr (bs, rng') \<Rightarrow>
                    Inr (Some (replicate (nat k) 255 @ bs,
                               g\<lparr>cg_rng := rng', cg_remaining := remaining\<rparr>)))
      else Inr None)"

text \<open>
  The whole sequence of chunks the generator yields, as \<^verbatim>\<open>list(generateChunks())\<close>
  computes it.  The loop need not end, so the result is \<open>None\<close> when it runs forever.
\<close>

partial_function (option) generateChunks_list ::
  "'s numpy_RandomState \<Rightarrow> 's chunk_gen \<Rightarrow> (error + byte list list) option" where
  "generateChunks_list np g =
     (case generateChunks_next np g of
        Inl e \<Rightarrow> Some (Inl e)
      | Inr None \<Rightarrow> Some (Inr [])
      | Inr (Some (chunk, g')) \<Rightarrow>
          Option.bind (generateChunks_list np g')
            (\<lambda>r. case r of Inl e \<Rightarrow> Some (Inl e) | Inr cs \<Rightarrow> Some (Inr (chunk # cs))))"


definition effective_chunk_size :: "config \<Rightarrow> int" where
  \<comment> \<open>the value \<^verbatim>\<open>generateChunks\<close> gives \<^verbatim>\<open>maxChunkSize\<close>, for a percentage that is an int\<close>
  "effective_chunk_size gen =
     (if 0 < gen_compressible_percentage gen then gen_compressible_blockSize gen
      else MAX_CHUNK_SIZE)"

section \<open>Paths and the file system\<close>

text \<open>
  The operating system is modelled by a map from path strings to entries.  Paths are
  compared as strings: no symbolic links and no normalisation of \<^verbatim>\<open>.\<close>, \<^verbatim>\<open>..\<close>
  or doubled separators.  A relative name without a directory part lives in the
  current directory, which exists.
\<close>

datatype entry = Directory | Regular "byte list"

type_synonym filesystem = "string \<Rightarrow> entry option"

definition os_path_join :: "string \<Rightarrow> string \<Rightarrow> string" where
  "os_path_join a b =
     (if b \<noteq> [] \<and> hd b = CHR ''/'' then b
      else if a = [] \<or> last a = CHR ''/'' then a @ b
      else a @ ''/'' @ b)"

definition rstrip_slash :: "string \<Rightarrow> string" where
  "rstrip_slash s = rev (dropWhile (\<lambda>c. c = CHR ''/'') (rev s))"

definition os_path_dirname :: "string \<Rightarrow> string" where
  "os_path_dirname p =
     (let head = rev (dropWhile (\<lambda>c. c \<noteq> CHR ''/'') (rev p))
      in if head \<noteq> [] \<and> \<not> list_all (\<lambda>c. c = CHR ''/'') head
         then rstrip_slash head else head)"

definition os_path_exists :: "filesystem \<Rightarrow> string \<Rightarrow> bool" where
  "os_path_exists fs p = (case fs p of None \<Rightarrow> False | Some _ \<Rightarrow> True)"

definition os_path_isdir :: "filesystem \<Rightarrow> string \<Rightarrow> bool" where
  "os_path_isdir fs p = (case fs p of Some Directory \<Rightarrow> True | _ \<Rightarrow> False)"

definition os_path_isfile :: "filesystem \<Rightarrow> string \<Rightarrow> bool" where
  "os_path_isfile fs p = (case fs p of Some (Regular _) \<Rightarrow> True | _ \<Rightarrow> False)"

definition os_path_getsize :: "filesystem \<Rightarrow> string \<Rightarrow> error + int" where
  \<comment> \<open>the size of a directory entry is a property of the file system; the script asks
      only for the size of regular files\<close>
  "os_path_getsize fs p =
     (case fs p of
        None \<Rightarrow> Inl FileNotFoundError
      | Some (Regular bs) \<Rightarrow> Inr (int (length bs))
      | Some Directory \<Rightarrow> Inr 4096)"

definition check_parent :: "filesystem \<Rightarrow> string \<Rightarrow> error option" where
  \<comment> \<open>creating \<open>p\<close> needs the directory that is to hold it\<close>
  "check_parent fs p =
     (let d = os_path_dirname p
      in if d = [] then None
         else case fs d of
                None \<Rightarrow> Some FileNotFoundError
              | Some (Regular _) \<Rightarrow> Some NotADirectoryError
              | Some Directory \<Rightarrow> None)"

definition os_mkdir :: "filesystem \<Rightarrow> string \<Rightarrow> error + filesystem" where
  "os_mkdir fs p =
     (case fs p of
        Some _ \<Rightarrow> Inl FileExistsError
      | None \<Rightarrow>
          (case check_parent fs p of
             Some e \<Rightarrow> Inl e
           | None \<Rightarrow> Inr (fs(p \<mapsto> Directory))))"

fun ancestors :: "string \<Rightarrow> string \<Rightarrow> string list" where
  \<comment> \<open>\<open>ancestors pre rest\<close>: the proper prefixes of \<open>pre @ rest\<close> that end just before
      a separator inside \<open>rest\<close> and are not empty\<close>
  "ancestors pre [] = []"
| "ancestors pre (c # cs) =
     (if c = CHR ''/'' \<and> pre \<noteq> [] \<and> last pre \<noteq> CHR ''/''
      then pre # ancestors (pre @ [c]) cs
      else ancestors (pre @ [c]) cs)"

fun mkdir_missing :: "filesystem \<Rightarrow> string list \<Rightarrow> error + filesystem" where
  "mkdir_missing fs [] = Inr fs"
| "mkdir_missing fs (p # ps) =
     (if os_path_exists fs p then mkdir_missing fs ps
      else case os_mkdir fs p of Inl e \<Rightarrow> Inl e | Inr fs' \<Rightarrow> mkdir_missing fs' ps)"

definition os_makedirs :: "filesystem \<Rightarrow> string \<Rightarrow> error + filesystem" where
  \<comment> \<open>creates the missing ancestor directories, then the directory itself\<close>
  "os_makedirs fs p =
     (case mkdir_missing fs (ancestors [] p) of
        Inl e \<Rightarrow> Inl e
      | Inr fs' \<Rightarrow> os_mkdir fs' p)"

text \<open>
  An open unbuffered binary file: its bytes and the position of the next read or
  write.  \<open>open_wb\<close> is \<^verbatim>\<open>open(path, "wb", 0)\<close>, which creates or empties the file;
  \<open>close_file\<close> stores what was written.
\<close>

record file_obj =
  fo_data :: "byte list"
  fo_pos :: nat

definition open_wb :: "filesystem \<Rightarrow> string \<Rightarrow> error + file_obj" where
  "open_wb fs p =
     (case fs p of
        Some Directory \<Rightarrow> Inl IsADirectoryError
      | _ \<Rightarrow>
          (case check_parent fs p of
             Some e \<Rightarrow> Inl e
           | None \<Rightarrow> Inr \<lparr>fo_data = [], fo_pos = 0\<rparr>))"

definition open_rb :: "filesystem \<Rightarrow> string \<Rightarrow> error + file_obj" where
  "open_rb fs p =
     (case fs p of
        None \<Rightarrow> Inl FileNotFoundError
      | Some Directory \<Rightarrow> Inl IsADirectoryError
      | Some (Regular bs) \<Rightarrow> Inr \<lparr>fo_data = bs, fo_pos = 0\<rparr>)"

definition close_file :: "filesystem \<Rightarrow> string \<Rightarrow> file_obj \<Rightarrow> filesystem" where
  "close_file fs p f = fs(p \<mapsto> Regular (fo_data f))"

definition file_truncate :: "file_obj \<Rightarrow> int \<Rightarrow> error + file_obj" where
  "file_truncate f n =
     (if n < 0 then Inl OSError
      else Inr (f\<lparr>fo_data := take (nat n) (fo_data f)
                               @ replicate (nat n - length (fo_data f)) 0\<rparr>))"

definition file_seek :: "file_obj \<Rightarrow> int \<Rightarrow> error + file_obj" where
  "file_seek f offset = (if offset < 0 then Inl OSError else Inr (f\<lparr>fo_pos := nat offset\<rparr>))"

definition file_write :: "file_obj \<Rightarrow> pydata \<Rightarrow> error + file_obj" where
  \<comment> \<open>a binary file accepts bytes only; writing past the end fills the gap with zeros\<close>
  "file_write f v =
     (case v of
        PyStr _ \<Rightarrow> Inl TypeError
      | PyBytes bs \<Rightarrow>
          (if bs = [] then Inr f
           else let d = fo_data f @ replicate (fo_pos f - length (fo_data f)) 0
                in Inr \<lparr>fo_data = take (fo_pos f) d @ bs @ drop (fo_pos f + length bs) d,
                        fo_pos = fo_pos f + length bs\<rparr>))"

definition file_read :: "file_obj \<Rightarrow> nat \<Rightarrow> byte list \<times> file_obj" where
  "file_read f n =
     (let bs = take n (drop (fo_pos f) (fo_data f))
      in (bs, f\<lparr>fo_pos := fo_pos f + length bs\<rparr>))"

definition shutil_copyfile :: "filesystem \<Rightarrow> string \<Rightarrow> string \<Rightarrow> error + filesystem" where
  "shutil_copyfile fs src dst =
     (if src = dst \<and> os_path_exists fs src then Inl SameFileError
      else case fs src of
             None \<Rightarrow> Inl FileNotFoundError
           | Some Directory \<Rightarrow> Inl IsADirectoryError
           | Some (Regular bs) \<Rightarrow>
               (case open_wb fs dst of
                  Inl e \<Rightarrow> Inl e
                | Inr _ \<Rightarrow> Inr (fs(dst \<mapsto> Regular bs))))"

definition filecmp_cmp :: "filesystem \<Rightarrow> string \<Rightarrow> string \<Rightarrow> error + bool" where
  \<comment> \<open>\<^verbatim>\<open>filecmp.cmp(f1, f2, shallow=False)\<close>: both regular and byte for byte equal\<close>
  "filecmp_cmp fs f1 f2 =
     (case (fs f1, fs f2) of
        (Some (Regular a), Some (Regular b)) \<Rightarrow> Inr (a = b)
      | (None, _) \<Rightarrow> Inl FileNotFoundError
      | (_, None) \<Rightarrow> Inl FileNotFoundError
      | _ \<Rightarrow> Inr False)"


section \<open>The node model\<close>

text \<open>
  The classes \<^verbatim>\<open>DirNode\<close>, \<^verbatim>\<open>FileNode\<close> and \<^verbatim>\<open>CopyNode\<close> with the attributes of their
  base class \<^verbatim>\<open>Node\<close>.  A directory owns its children, so the object graph is a tree
  and is modelled as one.  A reference to a directory object (the attribute
  \<^verbatim>\<open>parent\<close>, an element of \<^verbatim>\<open>dirNodes\<close>) is the identity \<open>ident\<close> of that directory:
  the number of directory objects constructed before it.
\<close>

datatype node =
    DirNode (ident: nat) (parent: "nat option") (depth: int) (path: "string option")
      (children: "node list")
  | FileNode (parent: "nat option") (depth: int) (path: "string option")
      (fileSeed: int) (fileSize: int)
  | CopyNode (parent: "nat option") (depth: int) (path: "string option")
      (sourcePath: string)

fun isDir :: "node \<Rightarrow> bool" where
  "isDir (DirNode i p d pa cs) = True"
| "isDir (FileNode p d pa seed sz) = False"
| "isDir (CopyNode p d pa src) = False"

definition isRoot :: "node \<Rightarrow> bool" where
  "isRoot n = (parent n = None)"

fun setParent :: "node \<Rightarrow> nat \<Rightarrow> int \<Rightarrow> node" where
  \<comment> \<open>\<open>setParent node q qd\<close>: the new parent is the directory \<open>q\<close>, whose depth is \<open>qd\<close>\<close>
  "setParent (DirNode i p d pa cs) q qd = DirNode i (Some q) (qd + 1) pa cs"
| "setParent (FileNode p d pa seed sz) q qd = FileNode (Some q) (qd + 1) pa seed sz"
| "setParent (CopyNode p d pa src) q qd = CopyNode (Some q) (qd + 1) pa src"

fun addNode :: "nat \<Rightarrow> node \<Rightarrow> node \<Rightarrow> node" where
  \<comment> \<open>\<open>addNode q node tree\<close>: the call \<^verbatim>\<open>q.addNode(node)\<close>, for the directory \<open>q\<close> of the tree\<close>
  "addNode q node (DirNode i p d pa cs) =
     (if i = q then DirNode i p d pa (cs @ [setParent node i d])
      else DirNode i p d pa (map (addNode q node) cs))"
| "addNode q node (FileNode p d pa seed sz) = FileNode p d pa seed sz"
| "addNode q node (CopyNode p d pa src) = CopyNode p d pa src"

fun deref :: "node \<Rightarrow> nat \<Rightarrow> node option"
  and deref_list :: "node list \<Rightarrow> nat \<Rightarrow> node option" where
  \<comment> \<open>the directory object a reference denotes\<close>
  "deref (DirNode i p d pa cs) q =
     (if i = q then Some (DirNode i p d pa cs) else deref_list cs q)"
| "deref (FileNode p d pa seed sz) q = None"
| "deref (CopyNode p d pa src) q = None"
| "deref_list [] q = None"
| "deref_list (n # ns) q =
     (case deref n q of Some r \<Rightarrow> Some r | None \<Rightarrow> deref_list ns q)"

section \<open>The tree builder\<close>

record 's RandomDirTree =
  rng :: 's
  root :: node
  dirNodes :: "nat list"
  allocated :: nat

definition new_DirNode :: "'s RandomDirTree \<Rightarrow> node \<times> 's RandomDirTree" where
  \<comment> \<open>\<^verbatim>\<open>DirNode()\<close>: an empty, unparented directory with the next identity\<close>
  "new_DirNode t = (DirNode (allocated t) None 0 None [], t\<lparr>allocated := allocated t + 1\<rparr>)"

definition attach ::
  "'s numpy_RandomState \<Rightarrow> config \<Rightarrow> node \<Rightarrow> 's RandomDirTree \<Rightarrow> error + 's RandomDirTree" where
  \<comment> \<open>\<^verbatim>\<open>_attach\<close>.  Every element of \<open>dirNodes\<close> denotes a directory of the tree, so the
      first \<open>None\<close> branch is never taken; the second is \<^verbatim>\<open>None.addNode(node)\<close>\<close>
  "attach np gen node t =
     (case choice np (dirNodes t) (rng t) of
        Inl e \<Rightarrow> Inl e
      | Inr (chosen, rng') \<Rightarrow>
          (case deref (root t) chosen of
             None \<Rightarrow> Inl AttributeError
           | Some parent0 \<Rightarrow>
               if isDir node then
                 (let target = (if 0 < depth parent0 \<and> gen_dirs_maxDepth gen \<le> depth parent0
                                then parent parent0 else Some chosen)
                  in case target of
                       None \<Rightarrow> Inl AttributeError
                     | Some q \<Rightarrow>
                         Inr (t\<lparr>rng := rng',
                                dirNodes := dirNodes t @ [ident node],
                                root := addNode q node (root t)\<rparr>))
               else Inr (t\<lparr>rng := rng', root := addNode chosen node (root t)\<rparr>)))"

fun createDirNodes ::
  "'s numpy_RandomState \<Rightarrow> config \<Rightarrow> nat \<Rightarrow> 's RandomDirTree \<Rightarrow> error + 's RandomDirTree" where
  \<comment> \<open>\<^verbatim>\<open>for i in range(n): self._attach(DirNode())\<close>\<close>
  "createDirNodes np gen 0 t = Inr t"
| "createDirNodes np gen (Suc n) t =
     (case new_DirNode t of
        (node, t1) \<Rightarrow>
          (case attach np gen node t1 of
             Inl e \<Rightarrow> Inl e
           | Inr t2 \<Rightarrow> createDirNodes np gen n t2))"

definition FileNode_init ::
  "'s numpy_RandomState \<Rightarrow> category \<Rightarrow> 's \<Rightarrow> error + node \<times> 's" where
  "FileNode_init np cat r =
     (case randomSeed np r of
        Inl e \<Rightarrow> Inl e
      | Inr (seed, r1) \<Rightarrow>
          (case np_random_integers np (cat_min cat) (cat_max cat) r1 of
             Inl e \<Rightarrow> Inl e
           | Inr (sz, r2) \<Rightarrow> Inr (FileNode None 0 None seed sz, r2)))"

definition coalescentCopies ::
  "'s numpy_RandomState \<Rightarrow> int \<Rightarrow> int \<Rightarrow> int \<Rightarrow> 's \<Rightarrow> error + int \<times> int \<times> int \<times> 's" where
  \<comment> \<open>the \<^verbatim>\<open>if\<close>/\<^verbatim>\<open>elif\<close>/\<^verbatim>\<open>else\<close> of \<^verbatim>\<open>_createFileNodes\<close>: from \<^verbatim>\<open>numFiles\<close>, \<^verbatim>\<open>numCoal\<close> and
      \<^verbatim>\<open>numCoalLegacy\<close> to \<^verbatim>\<open>copies\<close> and the new values of the two counters\<close>
  "coalescentCopies np numFiles numCoal numCoalLegacy r =
     (if 0 < numCoal then
        (if numFiles = numCoal then Inr (numCoal, numCoal - numCoal, numCoalLegacy, r)
         else case np_random_integers np 1 3 r of
                Inl e \<Rightarrow> Inl e
              | Inr (v, r') \<Rightarrow>
                  (let copies = min numCoal v
                   in Inr (copies, numCoal - copies, numCoalLegacy, r')))
      else if 0 < numCoalLegacy then
        (case np_random_integers np 1 3 r of
           Inl e \<Rightarrow> Inl e
         | Inr (v, r') \<Rightarrow> Inr (v, numCoal, numCoalLegacy - 1, r'))
      else Inr (0, numCoal, numCoalLegacy, r))"

fun attachCopies ::
  "'s numpy_RandomState \<Rightarrow> config \<Rightarrow> node \<Rightarrow> nat \<Rightarrow> 's RandomDirTree \<Rightarrow> error + 's RandomDirTree" where
  \<comment> \<open>\<^verbatim>\<open>for i in range(copies): self._attach(copy.copy(fileNode))\<close>; the copy shares seed
      and size, and \<^verbatim>\<open>setParent\<close> overwrites its parent and depth\<close>
  "attachCopies np gen fileNode 0 t = Inr t"
| "attachCopies np gen fileNode (Suc n) t =
     (case attach np gen fileNode t of
        Inl e \<Rightarrow> Inl e
      | Inr t' \<Rightarrow> attachCopies np gen fileNode n t')"

function createFileNodes_loop ::
  "'s numpy_RandomState \<Rightarrow> config \<Rightarrow> category \<Rightarrow> int \<Rightarrow> int \<Rightarrow> int \<Rightarrow> 's RandomDirTree
     \<Rightarrow> error + 's RandomDirTree" where
  "createFileNodes_loop np gen cat numFiles numCoal numCoalLegacy t =
     (if 0 < numFiles then
        (case FileNode_init np cat (rng t) of
           Inl e \<Rightarrow> Inl e
         | Inr (fileNode, r1) \<Rightarrow>
             (case attach np gen fileNode (t\<lparr>rng := r1\<rparr>) of
                Inl e \<Rightarrow> Inl e
              | Inr t1 \<Rightarrow>
                  (case coalescentCopies np (numFiles - 1) numCoal numCoalLegacy (rng t1) of
                     Inl e \<Rightarrow> Inl e
                   | Inr (copies0, numCoal', numCoalLegacy', r2) \<Rightarrow>
                       (let copies = min copies0 (numFiles - 1)
                        in if 0 < copies then
                             (case attachCopies np gen fileNode (nat copies) (t1\<lparr>rng := r2\<rparr>) of
                                Inl e \<Rightarrow> Inl e
                              | Inr t2 \<Rightarrow>
                                  createFileNodes_loop np gen cat (numFiles - 1 - copies)
                                    numCoal' numCoalLegacy' t2)
                           else createFileNodes_loop np gen cat (numFiles - 1)
                                  numCoal' numCoalLegacy' (t1\<lparr>rng := r2\<rparr>)))))
      else Inr t)"
  by pat_completeness auto
termination
  by (relation "measure (\<lambda>(np, gen, cat, numFiles, numCoal, numCoalLegacy, t). nat numFiles)") auto

definition createFileNodes ::
  "'s numpy_RandomState \<Rightarrow> config \<Rightarrow> category \<Rightarrow> 's RandomDirTree \<Rightarrow> error + 's RandomDirTree" where
  "createFileNodes np gen cat t =
     (if cat_num cat < cat_numCoalescent cat \<or> cat_num cat < cat_coalescent cat
      then Inl Error
      else createFileNodes_loop np gen cat (cat_num cat) (cat_numCoalescent cat)
             (cat_coalescent cat) t)"

fun attachCopyNodes ::
  "'s numpy_RandomState \<Rightarrow> config \<Rightarrow> string list \<Rightarrow> nat \<Rightarrow> 's RandomDirTree
     \<Rightarrow> error + 's RandomDirTree" where
  \<comment> \<open>the loop of \<^verbatim>\<open>_createCopyNodes\<close>\<close>
  "attachCopyNodes np gen fileList 0 t = Inr t"
| "attachCopyNodes np gen fileList (Suc n) t =
     (case choice np fileList (rng t) of
        Inl e \<Rightarrow> Inl e
      | Inr (src, r') \<Rightarrow>
          (case attach np gen (CopyNode None 0 None src) (t\<lparr>rng := r'\<rparr>) of
             Inl e \<Rightarrow> Inl e
           | Inr t' \<Rightarrow> attachCopyNodes np gen fileList n t'))"

definition createCopyNodes ::
  "'s numpy_RandomState \<Rightarrow> config \<Rightarrow> string list \<Rightarrow> filesystem \<Rightarrow> 's RandomDirTree
     \<Rightarrow> error + 's RandomDirTree" where
  \<comment> \<open>\<open>listing\<close> is what \<^verbatim>\<open>_fileTree(gen.copied.sourceDir)\<close> enumerates on this run: the
      order in which \<^verbatim>\<open>os.walk\<close> yields file names is the operating system's\<close>
  "createCopyNodes np gen listing fs t =
     (if gen_copied_num gen = 0 then Inr t
      else let fileList = filter (os_path_isfile fs) listing
           in if fileList = [] then Inl Error
              else attachCopyNodes np gen fileList (nat (gen_copied_num gen)) t)"

definition createNodes ::
  "'s numpy_RandomState \<Rightarrow> config \<Rightarrow> string list \<Rightarrow> filesystem \<Rightarrow> 's RandomDirTree
     \<Rightarrow> error + 's RandomDirTree" where
  "createNodes np gen listing fs t =
     (case createDirNodes np gen (nat (gen_dirs_num gen)) t of
        Inl e \<Rightarrow> Inl e
      | Inr t1 \<Rightarrow>
          (let t2 = (if 1 < length (dirNodes t1) then t1\<lparr>dirNodes := tl (dirNodes t1)\<rparr> else t1)
           in case createFileNodes np gen (gen_huge gen) t2 of
                Inl e \<Rightarrow> Inl e
              | Inr t3 \<Rightarrow>
                  (case createFileNodes np gen (gen_large gen) t3 of
                     Inl e \<Rightarrow> Inl e
                   | Inr t4 \<Rightarrow>
                       (case createFileNodes np gen (gen_medium gen) t4 of
                          Inl e \<Rightarrow> Inl e
                        | Inr t5 \<Rightarrow>
                            (case createFileNodes np gen (gen_small gen) t5 of
                               Inl e \<Rightarrow> Inl e
                             | Inr t6 \<Rightarrow> createCopyNodes np gen listing fs t6)))))"


section \<open>The namer\<close>

function str_nat :: "nat \<Rightarrow> string" where
  \<comment> \<open>\<^verbatim>\<open>str(n)\<close> for a non-negative int\<close>
  "str_nat n =
     (if n < 10 then [char_of (48 + n)]
      else str_nat (n div 10) @ [char_of (48 + n mod 10)])"
  by pat_completeness auto
termination
  by (relation "measure id") auto

definition setName :: "config \<Rightarrow> string option \<Rightarrow> nat \<Rightarrow> error + string" where
  \<comment> \<open>the path \<^verbatim>\<open>setName\<close> assigns; \<open>ppath\<close> is \<^verbatim>\<open>self.parent.path\<close>, and joining \<^verbatim>\<open>None\<close>
      raises\<close>
  "setName gen ppath name =
     (case ppath of
        None \<Rightarrow> Inl TypeError
      | Some pp \<Rightarrow> Inr (os_path_join pp (gen_name_prefix gen @ str_nat name)))"

fun nameNodes :: "config \<Rightarrow> string option \<Rightarrow> node \<Rightarrow> nat \<Rightarrow> error + node \<times> nat"
  and nameNodes_list ::
    "config \<Rightarrow> string option \<Rightarrow> node list \<Rightarrow> nat \<Rightarrow> error + node list \<times> nat" where
  \<comment> \<open>\<open>k\<close> is the next value of the counter \<^verbatim>\<open>itertools.count(0)\<close>; the result carries
      the counter after the visit\<close>
  "nameNodes gen ppath (DirNode i p d pa cs) k =
     (if p = None then
        (case nameNodes_list gen pa cs k of
           Inl e \<Rightarrow> Inl e
         | Inr (cs', k') \<Rightarrow> Inr (DirNode i p d pa cs', k'))
      else
        (case setName gen ppath k of
           Inl e \<Rightarrow> Inl e
         | Inr s \<Rightarrow>
             (case nameNodes_list gen (Some s) cs (k + 1) of
                Inl e \<Rightarrow> Inl e
              | Inr (cs', k') \<Rightarrow> Inr (DirNode i p d (Some s) cs', k'))))"
| "nameNodes gen ppath (FileNode p d pa seed sz) k =
     (case setName gen ppath k of
        Inl e \<Rightarrow> Inl e
      | Inr s \<Rightarrow> Inr (FileNode p d (Some s) seed sz, k + 1))"
| "nameNodes gen ppath (CopyNode p d pa src) k =
     (case setName gen ppath k of
        Inl e \<Rightarrow> Inl e
      | Inr s \<Rightarrow> Inr (CopyNode p d (Some s) src, k + 1))"
| "nameNodes_list gen ppath [] k = Inr ([], k)"
| "nameNodes_list gen ppath (n # ns) k =
     (case nameNodes gen ppath n k of
        Inl e \<Rightarrow> Inl e
      | Inr (n', k') \<Rightarrow>
          (case nameNodes_list gen ppath ns k' of
             Inl e \<Rightarrow> Inl e
           | Inr (ns', k'') \<Rightarrow> Inr (n' # ns', k'')))"

section \<open>Statistics\<close>

text \<open>
  The counters of \<^verbatim>\<open>GenerateStats\<close>.  The start time, the duration and the two rates
  derived from it depend on the clock and are left out.
\<close>

record GenerateStats =
  numBytes :: int
  numFiles :: int
  numDirs :: int
  verified :: bool

definition GenerateStats_init :: GenerateStats where
  "GenerateStats_init = \<lparr>numBytes = 0, numFiles = 0, numDirs = 0, verified = True\<rparr>"

fun measure_node :: "filesystem \<Rightarrow> node \<Rightarrow> GenerateStats \<Rightarrow> error + GenerateStats"
  and measure_list :: "filesystem \<Rightarrow> node list \<Rightarrow> GenerateStats \<Rightarrow> error + GenerateStats" where
  "measure_node fs (DirNode i p d pa cs) st =
     measure_list fs cs (if p \<noteq> None then st\<lparr>numDirs := numDirs st + 1\<rparr> else st)"
| "measure_node fs (FileNode p d pa seed sz) st =
     Inr (st\<lparr>numFiles := numFiles st + 1, numBytes := numBytes st + sz\<rparr>)"
| "measure_node fs (CopyNode p d pa src) st =
     (case os_path_getsize fs src of
        Inl e \<Rightarrow> Inl e
      | Inr n \<Rightarrow> Inr (st\<lparr>numFiles := numFiles st + 1, numBytes := numBytes st + n\<rparr>))"
| "measure_list fs [] st = Inr st"
| "measure_list fs (n # ns) st =
     (case measure_node fs n st of Inl e \<Rightarrow> Inl e | Inr st' \<Rightarrow> measure_list fs ns st')"

section \<open>The writer\<close>

text \<open>
  A loop over the chunk generator need not end, so the loops are partial functions:
  \<open>None\<close> is a run that never returns, \<open>Some (Inl e)\<close> one that raises \<open>e\<close>.
\<close>

partial_function (option) write_chunks ::
  "'s numpy_RandomState \<Rightarrow> 's chunk_gen \<Rightarrow> file_obj \<Rightarrow> (error + file_obj) option" where
  \<comment> \<open>\<^verbatim>\<open>for chunk in self.generateChunks(): output.write(chunk)\<close>\<close>
  "write_chunks np g f =
     (case generateChunks_next np g of
        Inl e \<Rightarrow> Some (Inl e)
      | Inr None \<Rightarrow> Some (Inr f)
      | Inr (Some (chunk, g')) \<Rightarrow>
          (case file_write f (PyBytes chunk) of
             Inl e \<Rightarrow> Some (Inl e)
           | Inr f' \<Rightarrow> write_chunks np g' f'))"

definition FileNode_truncate :: "int \<Rightarrow> file_obj \<Rightarrow> error + file_obj" where
  \<comment> \<open>\<^verbatim>\<open>FileNode.truncate\<close>; the boundary byte is the text string \<^verbatim>\<open>'\0'\<close>\<close>
  "FileNode_truncate sz f =
     (case file_truncate f sz of
        Inl e \<Rightarrow> Inl e
      | Inr f1 \<Rightarrow>
          if 0 < sz then
            (case file_seek f1 (sz - 1) of
               Inl e \<Rightarrow> Inl e
             | Inr f2 \<Rightarrow> file_write f2 (PyStr [CHR 0x00]))
          else Inr f1)"

definition FileNode_write ::
  "'s numpy_RandomState \<Rightarrow> config \<Rightarrow> string option \<Rightarrow> int \<Rightarrow> int \<Rightarrow> filesystem
     \<Rightarrow> (error + filesystem) option" where
  "FileNode_write np gen pa seed sz fs =
     (case pa of
        None \<Rightarrow> Some (Inl TypeError)
      | Some p \<Rightarrow>
          (case open_wb fs p of
             Inl e \<Rightarrow> Some (Inl e)
           | Inr f0 \<Rightarrow>
               (case (if gen_truncate gen then FileNode_truncate sz f0 else Inr f0) of
                  Inl e \<Rightarrow> Some (Inl e)
                | Inr f1 \<Rightarrow>
                    (case file_seek f1 0 of
                       Inl e \<Rightarrow> Some (Inl e)
                     | Inr f2 \<Rightarrow>
                         (case generateChunks_start np gen seed sz of
                            Inl e \<Rightarrow> Some (Inl e)
                          | Inr g \<Rightarrow>
                              (case write_chunks np g f2 of
                                 None \<Rightarrow> None
                               | Some (Inl e) \<Rightarrow> Some (Inl e)
                               | Some (Inr f3) \<Rightarrow> Some (Inr (close_file fs p f3))))))))"

definition CopyNode_write ::
  "string option \<Rightarrow> string \<Rightarrow> filesystem \<Rightarrow> (error + filesystem) option" where
  "CopyNode_write pa src fs =
     (case pa of
        None \<Rightarrow> Some (Inl TypeError)
      | Some p \<Rightarrow> Some (shutil_copyfile fs src p))"

definition fsync_dir :: "string option \<Rightarrow> filesystem \<Rightarrow> error + filesystem" where
  \<comment> \<open>\<^verbatim>\<open>os.open(self.path, 0)\<close>, \<^verbatim>\<open>os.fsync\<close>, \<^verbatim>\<open>os.close\<close>: no change to the contents\<close>
  "fsync_dir pa fs =
     (case pa of
        None \<Rightarrow> Inl TypeError
      | Some p \<Rightarrow> if os_path_exists fs p then Inr fs else Inl FileNotFoundError)"

fun write_node :: "'s numpy_RandomState \<Rightarrow> config \<Rightarrow> node \<Rightarrow> filesystem \<Rightarrow> (error + filesystem) option"
  and write_children ::
    "'s numpy_RandomState \<Rightarrow> config \<Rightarrow> node list \<Rightarrow> filesystem \<Rightarrow> (error + filesystem) option" where
  "write_node np gen (DirNode i p d pa cs) fs =
     (case (if p \<noteq> None
            then (case pa of None \<Rightarrow> Inl TypeError | Some s \<Rightarrow> os_mkdir fs s)
            else Inr fs) of
        Inl e \<Rightarrow> Some (Inl e)
      | Inr fs1 \<Rightarrow>
          (case write_children np gen cs fs1 of
             None \<Rightarrow> None
           | Some (Inl e) \<Rightarrow> Some (Inl e)
           | Some (Inr fs2) \<Rightarrow>
               if gen_fsync gen then Some (fsync_dir pa fs2) else Some (Inr fs2)))"
| "write_node np gen (FileNode p d pa seed sz) fs = FileNode_write np gen pa seed sz fs"
| "write_node np gen (CopyNode p d pa src) fs = CopyNode_write pa src fs"
| "write_children np gen [] fs = Some (Inr fs)"
| "write_children np gen (n # ns) fs =
     (case write_node np gen n fs of
        None \<Rightarrow> None
      | Some (Inl e) \<Rightarrow> Some (Inl e)
      | Some (Inr fs') \<Rightarrow> write_children np gen ns fs')"

section \<open>The verifier\<close>

definition Node_isFile :: "filesystem \<Rightarrow> string \<Rightarrow> bool" where
  "Node_isFile fs p =
     (if \<not> os_path_exists fs p then False
      else if \<not> os_path_isfile fs p then False
      else True)"

definition verifySize :: "filesystem \<Rightarrow> string \<Rightarrow> int \<Rightarrow> error + bool" where
  "verifySize fs p sz =
     (case os_path_getsize fs p of
        Inl e \<Rightarrow> Inl e
      | Inr n \<Rightarrow> Inr (\<not> n \<noteq> sz))"

definition verifyChunk :: "file_obj \<Rightarrow> byte list \<Rightarrow> error + bool \<times> file_obj" where
  \<comment> \<open>When the chunk read has the expected length and differs, the method computes the
      offset of the first difference and then formats its message with
      \<^verbatim>\<open>expected.encode('hex')\<close>.  A bytes object has no method \<^verbatim>\<open>encode\<close>: the call raises
      \<^verbatim>\<open>AttributeError\<close> before anything is logged or returned.\<close>
  "verifyChunk f expected =
     (case file_read f (length expected) of
        (actual, f') \<Rightarrow>
          if actual = expected then Inr (True, f')
          else if length actual \<noteq> length expected then Inr (False, f')
          else Inl AttributeError)"

partial_function (option) verify_chunks ::
  "'s numpy_RandomState \<Rightarrow> 's chunk_gen \<Rightarrow> file_obj \<Rightarrow> (error + bool) option" where
  \<comment> \<open>the loop of \<^verbatim>\<open>verifyContents\<close>\<close>
  "verify_chunks np g f =
     (case generateChunks_next np g of
        Inl e \<Rightarrow> Some (Inl e)
      | Inr None \<Rightarrow> Some (Inr True)
      | Inr (Some (chunk, g')) \<Rightarrow>
          (case verifyChunk f chunk of
             Inl e \<Rightarrow> Some (Inl e)
           | Inr (ok, f') \<Rightarrow> if \<not> ok then Some (Inr False) else verify_chunks np g' f'))"

definition verifyContents ::
  "'s numpy_RandomState \<Rightarrow> config \<Rightarrow> string \<Rightarrow> int \<Rightarrow> int \<Rightarrow> filesystem
     \<Rightarrow> (error + bool) option" where
  "verifyContents np gen p seed sz fs =
     (case open_rb fs p of
        Inl e \<Rightarrow> Some (Inl e)
      | Inr f \<Rightarrow>
          (case generateChunks_start np gen seed sz of
             Inl e \<Rightarrow> Some (Inl e)
           | Inr g \<Rightarrow> verify_chunks np g f))"

definition FileNode_verify ::
  "'s numpy_RandomState \<Rightarrow> config \<Rightarrow> string option \<Rightarrow> int \<Rightarrow> int \<Rightarrow> filesystem
     \<Rightarrow> (error + bool) option" where
  \<comment> \<open>after a failed comparison the method runs the diagnostic \<^verbatim>\<open>filefrag\<close>, which does
      not change the result\<close>
  "FileNode_verify np gen pa seed sz fs =
     (case pa of
        None \<Rightarrow> Some (Inl TypeError)
      | Some p \<Rightarrow>
          if \<not> Node_isFile fs p then Some (Inr False)
          else (case verifySize fs p sz of
                  Inl e \<Rightarrow> Some (Inl e)
                | Inr sizeOk \<Rightarrow>
                    if \<not> sizeOk then Some (Inr False)
                    else (case verifyContents np gen p seed sz fs of
                            None \<Rightarrow> None
                          | Some (Inl e) \<Rightarrow> Some (Inl e)
                          | Some (Inr ok) \<Rightarrow> if ok then Some (Inr True) else Some (Inr False))))"

definition CopyNode_verify :: "string option \<Rightarrow> string \<Rightarrow> filesystem \<Rightarrow> (error + bool) option" where
  "CopyNode_verify pa src fs =
     (if \<not> Node_isFile fs src then Some (Inr False)
      else case pa of
             None \<Rightarrow> Some (Inl TypeError)
           | Some p \<Rightarrow>
               if \<not> Node_isFile fs p then Some (Inr False)
               else Some (filecmp_cmp fs src p))"

fun verify_node :: "'s numpy_RandomState \<Rightarrow> config \<Rightarrow> node \<Rightarrow> filesystem \<Rightarrow> (error + bool) option"
  and verify_children ::
    "'s numpy_RandomState \<Rightarrow> config \<Rightarrow> node list \<Rightarrow> filesystem \<Rightarrow> (error + bool list) option" where
  \<comment> \<open>\<open>verify_children\<close> is the list comprehension \<^verbatim>\<open>[node.verify() for node in
      self.children]\<close>: every child is verified, whatever the earlier results\<close>
  "verify_node np gen (DirNode i p d pa cs) fs =
     (case pa of
        None \<Rightarrow> Some (Inl TypeError)
      | Some s \<Rightarrow>
          if \<not> os_path_isdir fs s then Some (Inr False)
          else (case verify_children np gen cs fs of
                  None \<Rightarrow> None
                | Some (Inl e) \<Rightarrow> Some (Inl e)
                | Some (Inr results) \<Rightarrow> Some (Inr (list_all (\<lambda>b. b) results))))"
| "verify_node np gen (FileNode p d pa seed sz) fs = FileNode_verify np gen pa seed sz fs"
| "verify_node np gen (CopyNode p d pa src) fs = CopyNode_verify pa src fs"
| "verify_children np gen [] fs = Some (Inr [])"
| "verify_children np gen (n # ns) fs =
     (case verify_node np gen n fs of
        None \<Rightarrow> None
      | Some (Inl e) \<Rightarrow> Some (Inl e)
      | Some (Inr b) \<Rightarrow>
          (case verify_children np gen ns fs of
             None \<Rightarrow> None
           | Some (Inl e) \<Rightarrow> Some (Inl e)
           | Some (Inr bs) \<Rightarrow> Some (Inr (b # bs))))"

section \<open>Building, generating and verifying a tree\<close>

definition str_add_int :: "string \<Rightarrow> int \<Rightarrow> error + string" where
  \<comment> \<open>\<^verbatim>\<open>s + i\<close> for a str and an int: Python raises \<^verbatim>\<open>TypeError\<close>, it does not convert\<close>
  "str_add_int s i = Inl TypeError"

definition RandomDirTree_init ::
  "'s numpy_RandomState \<Rightarrow> config \<Rightarrow> string list \<Rightarrow> string \<Rightarrow> GenerateStats \<Rightarrow> filesystem
     \<Rightarrow> error + 's RandomDirTree \<times> GenerateStats" where
  "RandomDirTree_init np gen listing rootDir stats fs =
     (case RandomState_init np (gen_randseed gen) of
        Inl e \<Rightarrow> Inl e
      | Inr r \<Rightarrow>
          (let t = \<lparr>rng = r, root = DirNode 0 None 0 (Some rootDir) [],
                    dirNodes = [0], allocated = 1\<rparr>
           in if gen_dirs_maxDepth gen < 0 then
                (case str_add_int ''MaxDirDepth must be positive: '' (gen_dirs_maxDepth gen) of
                   Inl e \<Rightarrow> Inl e
                 | Inr msg \<Rightarrow> Inl Error)
              else
                (case createNodes np gen listing fs t of
                   Inl e \<Rightarrow> Inl e
                 | Inr t1 \<Rightarrow>
                     if gen_readable_filenames gen then
                       (case nameNodes gen None (root t1) 0 of
                          Inl e \<Rightarrow> Inl e
                        | Inr (named, k) \<Rightarrow>
                            (case measure_node fs named stats of
                               Inl e \<Rightarrow> Inl e
                             | Inr stats' \<Rightarrow> Inr (t1\<lparr>root := named\<rparr>, stats')))
                     else Inl Error)))"

definition genTree ::
  "'s numpy_RandomState \<Rightarrow> config \<Rightarrow> string list \<Rightarrow> bool \<Rightarrow> string option \<Rightarrow> bool \<Rightarrow> filesystem
     \<Rightarrow> (error + GenerateStats \<times> filesystem) option" where
  \<comment> \<open>\<^verbatim>\<open>genTree(verify, rootDir, createRoot)\<close> on the file system \<open>fs\<close>; the result is the
      statistics and the file system it leaves\<close>
  "genTree np gen listing vfy rootDir createRoot fs =
     (case (case rootDir of None \<Rightarrow> (gen_root_dir gen, True) | Some d \<Rightarrow> (d, createRoot)) of
        (rootDir', createRoot') \<Rightarrow>
          (case (if createRoot' \<and> \<not> os_path_isdir fs rootDir'
                 then os_makedirs fs rootDir' else Inr fs) of
             Inl e \<Rightarrow> Some (Inl e)
           | Inr fs1 \<Rightarrow>
               if \<not> os_path_isdir fs1 rootDir' then Some (Inl Error)
               else (case RandomDirTree_init np gen listing rootDir' GenerateStats_init fs1 of
                       Inl e \<Rightarrow> Some (Inl e)
                     | Inr (tree, stats) \<Rightarrow>
                         if vfy then
                           (case verify_node np gen (root tree) fs1 of
                              None \<Rightarrow> None
                            | Some (Inl e) \<Rightarrow> Some (Inl e)
                            | Some (Inr ok) \<Rightarrow> Some (Inr (stats\<lparr>verified := ok\<rparr>, fs1)))
                         else
                           (case write_node np gen (root tree) fs1 of
                              None \<Rightarrow> None
                            | Some (Inl e) \<Rightarrow> Some (Inl e)
                            | Some (Inr fs2) \<Rightarrow> Some (Inr (stats, fs2))))))"


section \<open>Observing a tree\<close>

text \<open>
  The nodes of a tree in traversal order, each without its children; the directories
  among them; and the number of \<^verbatim>\<open>FileNode\<close> objects.
\<close>

fun flat :: "node \<Rightarrow> node list" where
  "flat (DirNode i p d pa cs) = DirNode i p d pa [] # concat (map flat cs)"
| "flat (FileNode p d pa seed sz) = [FileNode p d pa seed sz]"
| "flat (CopyNode p d pa src) = [CopyNode p d pa src]"

definition dir_ids :: "node \<Rightarrow> nat list" where
  "dir_ids t = map ident (filter isDir (flat t))"

fun isFileNode :: "node \<Rightarrow> bool" where
  "isFileNode (DirNode i p d pa cs) = False"
| "isFileNode (FileNode p d pa seed sz) = True"
| "isFileNode (CopyNode p d pa src) = False"

definition count_files :: "node \<Rightarrow> nat" where
  "count_files t = length (filter isFileNode (flat t))"

definition dir_depths :: "node \<Rightarrow> int list" where
  "dir_depths t = map depth (filter isDir (flat t))"

text \<open>
  What holds of the builder's state between two calls of \<^verbatim>\<open>_attach\<close>: directories
  have distinct identities, all allocated; \<^verbatim>\<open>dirNodes\<close> is not empty and refers to
  directories of the tree; the root alone has no parent and depth 0, and every other
  directory is one level below the directory its \<^verbatim>\<open>parent\<close> refers to.
\<close>

definition builder_inv :: "'s RandomDirTree \<Rightarrow> bool" where
  "builder_inv t \<longleftrightarrow>
     distinct (dir_ids (root t)) \<and>
     dirNodes t \<noteq> [] \<and>
     set (dirNodes t) \<subseteq> set (dir_ids (root t)) \<and>
     (\<forall>i \<in> set (dir_ids (root t)). i < allocated t) \<and>
     (\<forall>n \<in> set (flat (root t)). isDir n \<longrightarrow>
        (case parent n of
           None \<Rightarrow> depth n = 0
         | Some q \<Rightarrow> \<exists>m \<in> set (flat (root t)). isDir m \<and> ident m = q \<and> 0 \<le> depth m \<and>
                       depth n = depth m + 1))"

definition initial_tree :: "'s \<Rightarrow> string \<Rightarrow> 's RandomDirTree" where
  \<comment> \<open>the state \<^verbatim>\<open>RandomDirTree.__init__\<close> sets up before it creates nodes\<close>
  "initial_tree r rootDir =
     \<lparr>rng = r, root = DirNode 0 None 0 (Some rootDir) [], dirNodes = [0], allocated = 1\<rparr>"

section \<open>The coalescence policy in the specification's words\<close>

text \<open>
  The clone count of the specification (section 4.2, step 3), for comparison with
  \<open>coalescentCopies\<close>: from the files still to create, the \<^verbatim>\<open>numCoalescent\<close> budget,
  the legacy counter and the value a draw \<open>uniform_int(1,3)\<close> gives, to the clamped
  clone count and the two counters afterwards.  \<open>spec_draws\<close> tells whether the policy
  makes the draw.
\<close>

definition spec_clone_count :: "int \<Rightarrow> int \<Rightarrow> int \<Rightarrow> int \<Rightarrow> int \<times> int \<times> int" where
  "spec_clone_count remaining budget legacy draw =
     (if 0 < budget then
        (let n = (if remaining = budget then budget else min budget draw)
         in (min n remaining, budget - n, legacy))
      else if 0 < legacy then (min draw remaining, budget, legacy - 1)
      else (min 0 remaining, budget, legacy))"

definition spec_draws :: "int \<Rightarrow> int \<Rightarrow> int \<Rightarrow> bool" where
  "spec_draws remaining budget legacy \<longleftrightarrow>
     (0 < budget \<and> remaining \<noteq> budget) \<or> (\<not> 0 < budget \<and> 0 < legacy)"

section \<open>What the model assumes of the generator\<close>

text \<open>
  The documented behaviour of the \<^verbatim>\<open>numpy\<close> methods on arguments in their domain.
  Nothing is assumed outside it.
\<close>

definition seed_contract :: "'s numpy_RandomState \<Rightarrow> bool" where
  \<comment> \<open>an array of two 32-bit words seeds a generator\<close>
  "seed_contract np \<longleftrightarrow> (\<forall>lo hi. \<exists>r. np_seed np [lo, hi] = Inr r)"

definition bytes_contract :: "'s numpy_RandomState \<Rightarrow> bool" where
  \<comment> \<open>\<^verbatim>\<open>bytes(n)\<close> returns \<open>n\<close> bytes\<close>
  "bytes_contract np \<longleftrightarrow>
     (\<forall>n r. 0 \<le> n \<longrightarrow> (\<exists>bs r'. np_bytes np n r = Inr (bs, r') \<and> int (length bs) = n))"

definition randint_contract :: "'s numpy_RandomState \<Rightarrow> bool" where
  \<comment> \<open>\<^verbatim>\<open>randint(n)\<close> returns an int in \<open>[0, n)\<close>, \<^verbatim>\<open>randint(256, size=8)\<close> eight of them\<close>
  "randint_contract np \<longleftrightarrow>
     (\<forall>n r. 0 < n \<longrightarrow> (\<exists>v r'. np_randint np n r = Inr (v, r') \<and> 0 \<le> v \<and> v < n)) \<and>
     (\<forall>r. \<exists>vs r'. np_randint_size np 256 8 r = Inr (vs, r') \<and> length vs = 8)"

definition random_integers_contract :: "'s numpy_RandomState \<Rightarrow> bool" where
  \<comment> \<open>\<^verbatim>\<open>random_integers(lo, hi)\<close> returns an int in \<open>[lo, hi]\<close>, for 64-bit bounds\<close>
  "random_integers_contract np \<longleftrightarrow>
     (\<forall>lo hi r. lo \<le> hi \<and> - (2 ^ 63) \<le> lo \<and> hi < 2 ^ 63 \<longrightarrow>
        (\<exists>v r'. np_random_integers np lo hi r = Inr (v, r') \<and> lo \<le> v \<and> v \<le> hi))"

section \<open>A generator for test runs\<close>

text \<open>
  A small deterministic instance of the generator interface, used to run the model on
  concrete inputs: its state is a counter, and every draw is read off the counter.
\<close>

definition test_np :: "nat numpy_RandomState" where
  "test_np =
     \<lparr>np_seed = (\<lambda>ws. Inr (sum_list (map unat ws))),
      np_randint = (\<lambda>n s. if n \<le> 0 then Inl ValueError else Inr (int s mod n, Suc s)),
      np_randint_size =
        (\<lambda>n k s. if n \<le> 0 then Inl ValueError
                  else Inr (map (\<lambda>i. int (s + i) mod n) [0..<k], s + k)),
      np_random_integers =
        (\<lambda>lo hi s. if hi < lo then Inl ValueError
                    else Inr (lo + int s mod (hi - lo + 1), Suc s)),
      np_bytes =
        (\<lambda>n s. if n < 0 then Inl ValueError
                else Inr (map (\<lambda>i. of_nat (s + i)) [0..<nat n], s + nat n))\<rparr>"

definition default_category :: category where
  "default_category =
     \<lparr>cat_min = 0, cat_max = 1024, cat_num = 0, cat_numCoalescent = 0, cat_coalescent = 0\<rparr>"

definition default_config :: config where
  \<comment> \<open>the defaults of \<^verbatim>\<open>initConfig\<close>, with seed 42 and the root directory \<^verbatim>\<open>r\<close>\<close>
  "default_config =
     \<lparr>gen_huge = default_category\<lparr>cat_min := 100 * KB * KB, cat_max := 500 * KB * KB\<rparr>,
      gen_large = default_category\<lparr>cat_min := 10 * KB * KB, cat_max := 15 * KB * KB\<rparr>,
      gen_medium = default_category\<lparr>cat_min := 1 * KB, cat_max := 200 * KB\<rparr>,
      gen_small = default_category,
      gen_copied_num = 0,
      gen_copied_sourceDir = [],
      gen_root_dir = ''r'',
      gen_dirs_num = 0,
      gen_dirs_maxDepth = 9223372036854775807,
      gen_compressible_percentage = 0,
      gen_compressible_blockSize = 4096,
      gen_readable_filenames = True,
      gen_fsync = False,
      gen_truncate = False,
      gen_randseed = 42,
      gen_name_prefix = []\<rparr>"

section \<open>Rounding to a double\<close>


lemma ilog2_bounds:
  assumes "0 < x"
  shows "2 powi (ilog2 x) \<le> x" and "x < 2 powi (ilog2 x + 1)"
proof -
  obtain a b where q: "quotient_of x = (a, b)" by (cases "quotient_of x")
  have b: "0 < b" using q by (rule quotient_of_denom_pos)
  have x: "x = of_int a / of_int b" using q by (rule quotient_of_div)
  have a: "0 < a" using assms b x by (simp add: zero_less_divide_iff)
  define la lb where "la = bitlen a" and "lb = bitlen b"
  have la: "2 ^ nat (la - 1) \<le> a" "a < 2 ^ nat la"
    using bitlen_bounds[OF a] by (simp_all add: la_def)
  have lb: "2 ^ nat (lb - 1) \<le> b" "b < 2 ^ nat lb"
    using bitlen_bounds[OF b] by (simp_all add: lb_def)
  have la1: "1 \<le> la" using a by (simp add: la_def bitlen_def floorlog_def)
  have lb1: "1 \<le> lb" using b by (simp add: lb_def bitlen_def floorlog_def)
  have ra: "(2::rat) ^ nat (la - 1) \<le> of_int a" "rat_of_int a < 2 ^ nat la"
    using la by (metis of_int_le_iff of_int_numeral of_int_power, metis of_int_less_iff of_int_numeral of_int_power)
  have rb: "(2::rat) ^ nat (lb - 1) \<le> of_int b" "rat_of_int b < 2 ^ nat lb"
    using lb by (metis of_int_le_iff of_int_numeral of_int_power, metis of_int_less_iff of_int_numeral of_int_power)
  have pw: "(2::rat) powi (la - lb + 1) = 2 ^ nat la / 2 ^ nat (lb - 1)"
    "(2::rat) powi (la - lb - 1) = 2 ^ nat (la - 1) / 2 ^ nat lb"
    using la1 lb1 power_int_diff[of "2::rat" la "lb - 1"] power_int_diff[of "2::rat" "la - 1" lb]
    by (simp_all add: power_int_nonneg_exp algebra_simps)
  have up: "x < 2 powi (la - lb + 1)"
    unfolding pw x using ra rb a b by (intro frac_less) simp_all
  have lo: "2 powi (la - lb - 1) \<le> x"
    unfolding pw x using ra rb a b by (intro frac_le) simp_all
  show "2 powi (ilog2 x) \<le> x"
    using lo by (simp add: ilog2_def q la_def lb_def Let_def)
  show "x < 2 powi (ilog2 x + 1)"
    using up by (auto simp add: ilog2_def q la_def lb_def not_le Let_def)
qed


lemma powi_nonpos: "n \<le> 0 \<Longrightarrow> (2::rat) powi n = inverse (2 ^ nat (- n))"
  using power_int_minus[of "2::rat" "- n"] by (simp add: power_int_nonneg_exp)

lemma rne_le_of_int: "x \<le> of_int k \<Longrightarrow> rne x \<le> k"
proof -
  assume h: "x \<le> of_int k"
  have f: "\<lfloor>x\<rfloor> \<le> k" using h by (simp add: floor_le_iff)
  show ?thesis
  proof (cases "\<lfloor>x\<rfloor> = k")
    case True
    then have "x = of_int \<lfloor>x\<rfloor>" using h of_int_floor_le[of x] by simp
    then show ?thesis using True by (simp add: rne_def Let_def)
  next
    case False
    then have "\<lfloor>x\<rfloor> + 1 \<le> k" using f by simp
    then show ?thesis by (simp add: rne_def Let_def)
  qed
qed

lemma rne_nonneg: "0 \<le> x \<Longrightarrow> 0 \<le> rne x"
  by (simp add: rne_def Let_def)

lemma rne_of_int: "rne (of_int k) = k"
  by (simp add: rne_def Let_def)

lemma round_double_nonneg: "0 \<le> x \<Longrightarrow> 0 \<le> round_double x"
  by (simp add: round_double_def Let_def rne_nonneg)

lemma round_double_le:
  assumes "0 < x" "x \<le> y" "y / 2 powi (max (ilog2 x) (- 1022) - 52) = of_int k"
  shows "round_double x \<le> y"
proof -
  define u :: rat where "u = 2 powi (max (ilog2 x) (- 1022) - 52)"
  have u: "0 < u" by (simp add: u_def zero_less_power_int)
  have "x / u \<le> y / u" using assms(2) u by (simp add: divide_right_mono)
  then have "x / u \<le> of_int k" using assms(3) by (simp add: u_def)
  then have "rne (x / u) \<le> k" by (rule rne_le_of_int)
  then have "of_int (rne (x / u)) * u \<le> of_int k * u" using u by simp
  also have "\<dots> = y" using assms(3) u by (simp add: u_def[symmetric] field_simps)
  finally show ?thesis using assms(1) by (simp add: round_double_def Let_def u_def)
qed

lemma round_double_le_int:
  assumes "0 \<le> x" "x \<le> of_int c" "c \<le> 2 ^ 53"
  shows "round_double x \<le> of_int c"
proof (cases "x = 0")
  case True then show ?thesis using assms by (simp add: round_double_def)
next
  case False
  then have x: "0 < x" using assms by simp
  define e where "e = ilog2 x"
  have e: "2 powi e \<le> x" "x < 2 powi (e + 1)" using ilog2_bounds[OF x] by (simp_all add: e_def)
  have c53: "rat_of_int c \<le> 2 ^ 53" using assms(3) by (metis of_int_le_iff of_int_numeral of_int_power)
  have "(2::rat) powi e \<le> 2 powi 53" using e(1) assms(2) c53 by simp
  then have e53: "e \<le> 53" using power_int_le_imp_le_exp[of "2::rat" e 53] by simp
  show ?thesis
  proof (cases "e \<le> 52")
    case True
    define k where "k = nat (52 - max e (- 1022))"
    have "(2::rat) powi (max e (- 1022) - 52) = inverse (2 ^ k)"
      using True powi_nonpos[of "max e (- 1022) - 52"] by (simp add: k_def)
    then have "of_int c / 2 powi (max (ilog2 x) (- 1022) - 52) = rat_of_int (c * 2 ^ k)"
      by (simp add: e_def[symmetric] divide_inverse)
    then show ?thesis using x assms(2) by (rule round_double_le[rotated 2])
  next
    case False
    then have e': "e = 53" using e53 by simp
    then have "x = 2 ^ 53" using e(1) assms(2) c53 by simp
    then have xc: "of_int c = (2::rat) ^ 53" using assms(2) c53 by simp
    have "of_int c / 2 powi (max (ilog2 x) (- 1022) - 52) = rat_of_int (2 ^ 52)"
      unfolding xc by (simp add: e_def[symmetric] e')
    then show ?thesis using x assms(2) by (rule round_double_le[rotated 2])
  qed
qed

lemma round_double_int:
  assumes "0 \<le> c" "c \<le> 2 ^ 53"
  shows "round_double (of_int c) = of_int c"
proof (cases "c = 0")
  case True then show ?thesis by (simp add: round_double_def)
next
  case False
  then have x: "0 < rat_of_int c" using assms by simp
  define e where "e = ilog2 (of_int c)"
  have e: "2 powi e \<le> rat_of_int c" "rat_of_int c < 2 powi (e + 1)" using ilog2_bounds[OF x] by (simp_all add: e_def)
  have c53: "rat_of_int c \<le> 2 ^ 53" using assms(2) by (metis of_int_le_iff of_int_numeral of_int_power)
  have c1: "1 \<le> rat_of_int c" using False assms by simp
  have "(2::rat) powi e \<le> 2 powi 53" using e(1) c53 by simp
  then have e53: "e \<le> 53" using power_int_le_imp_le_exp[of "2::rat" e 53] by simp
  have "(2::rat) powi 0 < 2 powi (e + 1)" using e(2) c1 by simp
  then have e0: "0 \<le> e" using power_int_increasing[of "e + 1" 0 "2::rat"] by (cases "0 \<le> e") auto
  have "\<exists>k. of_int c / 2 powi (e - 52) = rat_of_int k"
  proof (cases "e \<le> 52")
    case True
    have "(2::rat) powi (e - 52) = inverse (2 ^ nat (52 - e))"
      using True powi_nonpos[of "e - 52"] by simp
    then have "of_int c / 2 powi (e - 52) = rat_of_int (c * 2 ^ nat (52 - e))"
      by (simp add: divide_inverse)
    then show ?thesis by blast
  next
    case False
    then have e': "e = 53" using e53 by simp
    then have xc: "of_int c = (2::rat) ^ 53" using e(1) c53 by simp
    have "of_int c / 2 powi (e - 52) = rat_of_int (2 ^ 52)"
      unfolding xc by (simp add: e')
    then show ?thesis by blast
  qed
  then obtain k where k: "of_int c / 2 powi (e - 52) = rat_of_int k" by blast
  have "of_int (rne (of_int c / 2 powi (e - 52))) * 2 powi (e - 52) = rat_of_int c"
    unfolding k rne_of_int using k by (simp add: field_simps)
  moreover have "max (ilog2 \<bar>rat_of_int c\<bar>) (- 1022) = e"
    using e0 assms(1) by (simp add: e_def)
  ultimately show ?thesis using False unfolding round_double_def Let_def by simp
qed


lemma max_double_ge: "2 ^ 53 \<le> max_double"
  by (simp add: max_double_def)

lemma py_float_exact:
  assumes "0 \<le> c" "c \<le> 2 ^ 53"
  shows "py_float c = Inr (of_int c)"
proof -
  have "rat_of_int c \<le> 2 ^ 53" using assms(2) by (metis of_int_le_iff of_int_numeral of_int_power)
  then have "\<not> max_double < \<bar>rat_of_int c\<bar>" using max_double_ge assms(1) by simp
  then show ?thesis using assms by (simp add: py_float_def Let_def round_double_int)
qed

lemma compressSize_bounds:
  assumes "0 \<le> p" "p \<le> 100" "0 \<le> c" "c \<le> 2 ^ 53"
  shows "\<exists>k. compressSize c (of_int p) = Inr k \<and> 0 \<le> k \<and> k \<le> c"
proof -
  define r where "r = float_div (rat_of_int p) 100"
  have r0: "0 \<le> r" using assms by (simp add: r_def float_div_def round_double_nonneg)
  have "round_double (rat_of_int p / 100) \<le> rat_of_int 1"
    using assms by (intro round_double_le_int) simp_all
  then have r1: "r \<le> 1" by (simp add: r_def float_div_def)
  define y where "y = float_mul (of_int c) r"
  have y0: "0 \<le> y" using assms r0 by (simp add: y_def float_mul_def round_double_nonneg)
  have "rat_of_int c * r \<le> rat_of_int c * 1" using r1 assms(3) by (intro mult_left_mono) simp_all
  then have yc: "y \<le> of_int c"
    unfolding y_def float_mul_def using assms r0 by (intro round_double_le_int) simp_all
  have "rat_of_int c \<le> 2 ^ 53" using assms(4) by (metis of_int_le_iff of_int_numeral of_int_power)
  then have "\<not> max_double < \<bar>y\<bar>" using max_double_ge y0 yc by simp
  then have "math_floor y = Inr \<lfloor>y\<rfloor>" by (simp add: math_floor_def)
  moreover have "0 \<le> \<lfloor>y\<rfloor>" using y0 by simp
  moreover have "\<lfloor>y\<rfloor> \<le> c" using yc by (simp add: floor_le_iff)
  ultimately show ?thesis using assms by (simp add: compressSize_def py_float_exact y_def r_def)
qed

lemma generateChunks_next_ok:
  assumes "bytes_contract np" "0 < cg_maxChunkSize g" "cg_maxChunkSize g \<le> 2 ^ 53"
    "cg_rate g = of_int p" "0 \<le> p" "p \<le> 100" "0 < cg_remaining g"
  shows "\<exists>chunk g'. generateChunks_next np g = Inr (Some (chunk, g')) \<and>
           int (length chunk) = min (cg_remaining g) (cg_maxChunkSize g) \<and>
           cg_remaining g' = cg_remaining g - int (length chunk) \<and>
           cg_maxChunkSize g' = cg_maxChunkSize g \<and> cg_rate g' = cg_rate g"
proof -
  define c where "c = min (cg_remaining g) (cg_maxChunkSize g)"
  have c: "0 \<le> c" "c \<le> 2 ^ 53" using assms by (simp_all add: c_def)
  obtain k where k: "compressSize c (of_int p) = Inr k" "0 \<le> k" "k \<le> c"
    using compressSize_bounds[OF assms(5,6) c] by blast
  obtain bs rng' where b: "np_bytes np (c - k) (cg_rng g) = Inr (bs, rng')" "int (length bs) = c - k"
    using assms(1) k unfolding bytes_contract_def by (metis diff_ge_0_iff_ge)
  show ?thesis
    using assms(4,7) k b by (simp add: generateChunks_next_def Let_def c_def[symmetric])
qed

lemma generateChunks_list_total:
  assumes "bytes_contract np" "0 < cg_maxChunkSize g" "cg_maxChunkSize g \<le> 2 ^ 53"
    "cg_rate g = of_int p" "0 \<le> p" "p \<le> 100"
  shows "\<exists>cs. generateChunks_list np g = Some (Inr cs) \<and>
           int (length (concat cs)) = max 0 (cg_remaining g) \<and>
           (\<forall>i<length cs. int (length (cs ! i)) =
               min (cg_remaining g - int (length (concat (take i cs)))) (cg_maxChunkSize g))"
  using assms
proof (induction "nat (cg_remaining g)" arbitrary: g rule: less_induct)
  case less
  show ?case
  proof (cases "0 < cg_remaining g")
    case False
    then have "generateChunks_list np g = Some (Inr [])"
      by (subst generateChunks_list.simps) (simp add: generateChunks_next_def)
    then show ?thesis using False by simp
  next
    case True
    obtain chunk g' where n: "generateChunks_next np g = Inr (Some (chunk, g'))"
      "int (length chunk) = min (cg_remaining g) (cg_maxChunkSize g)"
      "cg_remaining g' = cg_remaining g - int (length chunk)"
      "cg_maxChunkSize g' = cg_maxChunkSize g" "cg_rate g' = cg_rate g"
      using generateChunks_next_ok[OF less.prems(1-6) True] by blast
    have "nat (cg_remaining g') < nat (cg_remaining g)"
      using n(2,3) True less.prems(2) by simp
    from less.hyps[OF this less.prems(1)] n(4,5) less.prems
    obtain cs where cs: "generateChunks_list np g' = Some (Inr cs)"
      "int (length (concat cs)) = max 0 (cg_remaining g')"
      "\<forall>i<length cs. int (length (cs ! i)) =
               min (cg_remaining g' - int (length (concat (take i cs)))) (cg_maxChunkSize g')"
      by auto
    have 1: "generateChunks_list np g = Some (Inr (chunk # cs))"
      by (subst generateChunks_list.simps) (simp add: n(1) cs(1))
    have 2: "int (length (concat (chunk # cs))) = max 0 (cg_remaining g)"
      using cs(2) n(2,3) True less.prems(2) by simp
    have 3: "int (length ((chunk # cs) ! i)) =
               min (cg_remaining g - int (length (concat (take i (chunk # cs))))) (cg_maxChunkSize g)"
      if "i < length (chunk # cs)" for i
    proof (cases i)
      case 0 then show ?thesis using n(2) by simp
    next
      case (Suc j)
      then show ?thesis using that cs(3) n(3,4) by (simp add: algebra_simps)
    qed
    show ?thesis using 1 2 3 by blast
  qed
qed


section \<open>Configuration errors\<close>

lemma RandomState_init_test_np:
  "- (2 ^ 63) \<le> seed \<Longrightarrow> seed < 2 ^ 64 \<Longrightarrow> \<exists>r. RandomState_init test_np seed = Inr r"
  by (simp add: RandomState_init_def test_np_def)

text \<open>
  C8.  With a negative \<^verbatim>\<open>gen.dirs.maxDepth\<close> the constructor of the tree stops before
  any node is created, but the exception it raises is not the script's \<open>Error\<close>: the
  message is built by adding the int to a string, which raises \<^verbatim>\<open>TypeError\<close>.
\<close>

theorem negative_maxDepth_raises_TypeError:
  assumes "gen_dirs_maxDepth gen < 0"
    and "RandomState_init np (gen_randseed gen) = Inr r"
  shows "RandomDirTree_init np gen listing rootDir stats fs = Inl TypeError"
  using assms by (simp add: RandomDirTree_init_def str_add_int_def)

theorem negative_maxDepth_raises_TypeError_witness:
  "RandomDirTree_init test_np (default_config\<lparr>gen_dirs_maxDepth := - 1\<rparr>) [] ''r''
     GenerateStats_init Map.empty = Inl TypeError"
proof -
  obtain r where "RandomState_init test_np (gen_randseed (default_config\<lparr>gen_dirs_maxDepth := - 1\<rparr>)) = Inr r"
    using RandomState_init_test_np[of 42] by (auto simp: default_config_def)
  then show ?thesis
    by (intro negative_maxDepth_raises_TypeError) simp_all
qed

section \<open>Writing with the truncate option\<close>

text \<open>
  C9.  With \<^verbatim>\<open>gen.truncate\<close> set and a positive file size, \<^verbatim>\<open>FileNode.write\<close> truncates
  the file and seeks to the last byte, and then hands the text string \<^verbatim>\<open>'\0'\<close> to a
  file opened in binary mode: the write raises \<^verbatim>\<open>TypeError\<close> and no chunk is written.
\<close>

theorem truncate_write_raises_TypeError:
  assumes "gen_truncate gen" and "0 < sz" and "open_wb fs p = Inr f0"
  shows "FileNode_write np gen (Some p) seed sz fs = Some (Inl TypeError)"
  using assms
  by (simp add: FileNode_write_def FileNode_truncate_def file_truncate_def file_seek_def
      file_write_def)

theorem truncate_write_raises_TypeError_witness:
  "FileNode_write test_np (default_config\<lparr>gen_truncate := True\<rparr>) (Some ''r/0'') 7 1
     (Map.empty(''r'' \<mapsto> Directory)) = Some (Inl TypeError)"
proof -
  have "open_wb (Map.empty(''r'' \<mapsto> Directory)) ''r/0'' = Inr \<lparr>fo_data = [], fo_pos = 0\<rparr>"
    by (simp add: open_wb_def check_parent_def os_path_dirname_def rstrip_slash_def)
  then show ?thesis
    by (intro truncate_write_raises_TypeError) simp_all
qed

section \<open>The chunk generator: length and layout of the chunks\<close>

lemma test_np_bytes: "bytes_contract test_np"
  by (simp add: bytes_contract_def test_np_def)

lemma test_np_seed: "seed_contract test_np"
  by (simp add: seed_contract_def test_np_def)

lemma compressSize_zero: "compressSize 0 rate = Inr 0"
  by (simp add: compressSize_def py_float_def round_double_def float_mul_def math_floor_def
      max_double_def)

lemma generateChunks_list_never_ends:
  assumes "generateChunks_list np g = Some y"
  shows "\<not> (bytes_contract np \<and> cg_maxChunkSize g = 0 \<and> 0 < cg_remaining g)"
proof (rule generateChunks_list.raw_induct
    [where P = "\<lambda>np g y. \<not> (bytes_contract np \<and> cg_maxChunkSize g = 0 \<and> 0 < cg_remaining g)",
     OF _ assms])
  fix f :: "'a numpy_RandomState \<Rightarrow> 'a chunk_gen \<Rightarrow> (error + byte list list) option"
    and np g y
  assume IH: "\<And>np g y. f np g = Some y \<Longrightarrow>
      \<not> (bytes_contract np \<and> cg_maxChunkSize g = 0 \<and> 0 < cg_remaining g)"
  assume step: "(case generateChunks_next np g of
        Inl e \<Rightarrow> Some (Inl e)
      | Inr None \<Rightarrow> Some (Inr [])
      | Inr (Some (chunk, g')) \<Rightarrow>
          Option.bind (f np g')
            (\<lambda>r. case r of Inl e \<Rightarrow> Some (Inl e) | Inr cs \<Rightarrow> Some (Inr (chunk # cs)))) = Some y"
  show "\<not> (bytes_contract np \<and> cg_maxChunkSize g = 0 \<and> 0 < cg_remaining g)"
  proof
    assume h: "bytes_contract np \<and> cg_maxChunkSize g = 0 \<and> 0 < cg_remaining g"
    then obtain bs r' where b: "np_bytes np 0 (cg_rng g) = Inr (bs, r')"
      unfolding bytes_contract_def by (metis order_refl)
    define g' where "g' = g\<lparr>cg_rng := r', cg_remaining := cg_remaining g\<rparr>"
    have n: "generateChunks_next np g = Inr (Some (replicate (nat 0) 255 @ bs, g'))"
      using h b by (simp add: generateChunks_next_def compressSize_zero g'_def)
    from step obtain y' where "f np g' = Some y'"
      unfolding n by (auto split: Option.bind_splits)
    from IH[OF this] h show False by (simp add: g'_def)
  qed
qed

lemma generateChunks_list_zero_block:
  "bytes_contract np \<Longrightarrow> cg_maxChunkSize g = 0 \<Longrightarrow> 0 < cg_remaining g \<Longrightarrow>
   generateChunks_list np g = None"
  using generateChunks_list_never_ends[of np g] by (cases "generateChunks_list np g") auto

lemma py_float_50: "py_float 50 = Inr 50"
  using py_float_exact[of 50] by simp

text \<open>
  C4, as stated, fails: with a positive percentage and \<^verbatim>\<open>gen.compressible.blockSize = 0\<close>
  every chunk is empty, \<^verbatim>\<open>remaining\<close> never decreases and the generator of a one-byte
  file yields chunks forever.
\<close>

theorem chunk_generator_counterexample:
  "generateChunks_start test_np
     (default_config\<lparr>gen_compressible_percentage := 50, gen_compressible_blockSize := 0\<rparr>) 0 1
     = Inr \<lparr>cg_rng = 0, cg_maxChunkSize = 0, cg_rate = 50, cg_remaining = 1\<rparr>
   \<and> generateChunks_list test_np \<lparr>cg_rng = 0, cg_maxChunkSize = 0, cg_rate = 50, cg_remaining = 1\<rparr>
     = None"
proof
  show "generateChunks_start test_np
     (default_config\<lparr>gen_compressible_percentage := 50, gen_compressible_blockSize := 0\<rparr>) 0 1
     = Inr \<lparr>cg_rng = 0, cg_maxChunkSize = 0, cg_rate = 50, cg_remaining = 1\<rparr>"
    by (simp add: generateChunks_start_def RandomState_init_def test_np_def py_float_50)
  show "generateChunks_list test_np \<lparr>cg_rng = 0, cg_maxChunkSize = 0, cg_rate = 50, cg_remaining = 1\<rparr>
     = None"
    by (rule generateChunks_list_zero_block[OF test_np_bytes]) simp_all
qed

lemma generateChunks_start_ok:
  assumes "seed_contract np" "- (2 ^ 63) \<le> seed" "seed < 2 ^ 64"
    "0 \<le> gen_compressible_percentage gen" "gen_compressible_percentage gen \<le> 100"
  shows "\<exists>r. generateChunks_start np gen seed sz =
           Inr \<lparr>cg_rng = r, cg_maxChunkSize = effective_chunk_size gen,
                cg_rate = of_int (gen_compressible_percentage gen), cg_remaining = sz\<rparr>"
proof -
  obtain r where "RandomState_init np seed = Inr r"
    using assms(1-3) unfolding seed_contract_def RandomState_init_def by (metis (full_types))
  moreover have "py_float (gen_compressible_percentage gen) = Inr (of_int (gen_compressible_percentage gen))"
    using assms(4,5) by (intro py_float_exact) simp_all
  ultimately show ?thesis
    by (simp add: generateChunks_start_def effective_chunk_size_def)
qed

text \<open>
  C4, amended.  For a percentage in \<open>[0, 100]\<close> and, when it is positive, a block size
  in \<open>(0, 2^53]\<close>, the generator of a file of non-negative size yields finitely many
  chunks; each has \<open>min remaining effective_chunk_size\<close> bytes, where \<open>remaining\<close>
  is the file size less the bytes of the chunks before it; together they have exactly
  \<^verbatim>\<open>fileSize\<close> bytes.
\<close>

theorem chunk_generator_total:
  assumes "bytes_contract np" and "seed_contract np"
    and "- (2 ^ 63) \<le> seed" and "seed < 2 ^ 64"
    and "0 \<le> sz"
    and "0 \<le> gen_compressible_percentage gen" and "gen_compressible_percentage gen \<le> 100"
    and "0 < gen_compressible_percentage gen \<longrightarrow>
           0 < gen_compressible_blockSize gen \<and> gen_compressible_blockSize gen \<le> 2 ^ 53"
  shows "\<exists>g cs. generateChunks_start np gen seed sz = Inr g \<and>
           generateChunks_list np g = Some (Inr cs) \<and>
           (\<forall>i<length cs. int (length (cs ! i)) =
               min (sz - int (length (concat (take i cs)))) (effective_chunk_size gen)) \<and>
           int (length (concat cs)) = sz"
proof -
  obtain r where g: "generateChunks_start np gen seed sz =
           Inr \<lparr>cg_rng = r, cg_maxChunkSize = effective_chunk_size gen,
                cg_rate = of_int (gen_compressible_percentage gen), cg_remaining = sz\<rparr>"
    using generateChunks_start_ok[OF assms(2,3,4,6,7)] by blast
  define g0 where "g0 = \<lparr>cg_rng = r, cg_maxChunkSize = effective_chunk_size gen,
                cg_rate = of_int (gen_compressible_percentage gen), cg_remaining = sz\<rparr>"
  have m: "0 < cg_maxChunkSize g0" "cg_maxChunkSize g0 \<le> 2 ^ 53"
    using assms(8) by (simp_all add: g0_def effective_chunk_size_def MAX_CHUNK_SIZE_def KB_def)
  have "cg_rate g0 = of_int (gen_compressible_percentage gen)" by (simp add: g0_def)
  from generateChunks_list_total[OF assms(1) m this assms(6,7)]
  show ?thesis using g assms(5) by (auto simp: g0_def)
qed


theorem chunk_generator_total_witness:
  "\<exists>g cs. generateChunks_start test_np
              (default_config\<lparr>gen_compressible_percentage := 50,
                              gen_compressible_blockSize := 100\<rparr>) 0 250 = Inr g \<and>
           generateChunks_list test_np g = Some (Inr cs) \<and>
           (\<forall>i<length cs. int (length (cs ! i)) =
               min (250 - int (length (concat (take i cs)))) 100) \<and>
           int (length (concat cs)) = 250"
  using chunk_generator_total[OF test_np_bytes test_np_seed, of 0 250
      "default_config\<lparr>gen_compressible_percentage := 50, gen_compressible_blockSize := 100\<rparr>"]
  by (simp add: effective_chunk_size_def)

lemma math_floor_small: "0 \<le> x \<Longrightarrow> x \<le> 2 ^ 53 \<Longrightarrow> math_floor x = Inr \<lfloor>x\<rfloor>"
  using max_double_ge by (simp add: math_floor_def)

lemma float_mul_100_29: "float_mul 100 (float_div 29 100) = 8162774324609023 / 281474976710656"
  by code_simp

lemma float_mul_100_50: "float_mul 100 (float_div 50 100) = 50"
  by code_simp

lemma compressSize_100_29: "compressSize 100 29 = Inr 28"
proof -
  have "py_float 100 = Inr 100" using py_float_exact[of 100] by simp
  moreover have "\<lfloor>8162774324609023 / 281474976710656 :: rat\<rfloor> = 28"
    by code_simp
  then have "math_floor (8162774324609023 / 281474976710656) = Inr 28"
    by (subst math_floor_small) simp_all
  ultimately show ?thesis by (simp add: compressSize_def float_mul_100_29)
qed

lemma compressSize_100_50: "compressSize 100 50 = Inr 50"
proof -
  have "py_float 100 = Inr 100" using py_float_exact[of 100] by simp
  moreover have "math_floor 50 = Inr 50"
    by (subst math_floor_small) simp_all
  ultimately show ?thesis by (simp add: compressSize_def float_mul_100_50)
qed

text \<open>
  C5, as stated, fails: the number of fill bytes is computed in double precision as
  \<^verbatim>\<open>floor(chunkSize * (rate / 100.0))\<close>.  For a chunk of 100 bytes at 29 percent the
  product is just below 29, so the chunk has 28 fill bytes, not \<open>\<lfloor>100 * 29 / 100\<rfloor> = 29\<close>: the
  byte at index 28 comes from the content stream.
\<close>

theorem chunk_fill_counterexample:
  "generateChunks_start test_np
     (default_config\<lparr>gen_compressible_percentage := 29, gen_compressible_blockSize := 100\<rparr>) 0 100
     = Inr \<lparr>cg_rng = 0, cg_maxChunkSize = 100, cg_rate = 29, cg_remaining = 100\<rparr>
   \<and> generateChunks_next test_np \<lparr>cg_rng = 0, cg_maxChunkSize = 100, cg_rate = 29, cg_remaining = 100\<rparr>
     = Inr (Some (replicate 28 255 @ map of_nat [0..<72],
                  \<lparr>cg_rng = 72, cg_maxChunkSize = 100, cg_rate = 29, cg_remaining = 0\<rparr>))
   \<and> (100 * 29) div 100 = (29 :: int)
   \<and> (replicate 28 255 @ map of_nat [0..<72] :: byte list) ! 28 = 0"
proof (intro conjI)
  have "py_float 29 = Inr 29" using py_float_exact[of 29] by simp
  then show "generateChunks_start test_np
     (default_config\<lparr>gen_compressible_percentage := 29, gen_compressible_blockSize := 100\<rparr>) 0 100
     = Inr \<lparr>cg_rng = 0, cg_maxChunkSize = 100, cg_rate = 29, cg_remaining = 100\<rparr>"
    by (simp add: generateChunks_start_def RandomState_init_def test_np_def)
  show "generateChunks_next test_np \<lparr>cg_rng = 0, cg_maxChunkSize = 100, cg_rate = 29, cg_remaining = 100\<rparr>
     = Inr (Some (replicate 28 255 @ map of_nat [0..<72],
                  \<lparr>cg_rng = 72, cg_maxChunkSize = 100, cg_rate = 29, cg_remaining = 0\<rparr>))"
    by (simp add: generateChunks_next_def compressSize_100_29 test_np_def)
  show "(100 * 29) div 100 = (29 :: int)" by simp
  show "(replicate 28 255 @ map of_nat [0..<72] :: byte list) ! 28 = 0"
    by (simp add: nth_append)
qed

text \<open>
  C5, amended.  A chunk of size \<open>C\<close> starts with \<open>k\<close> bytes \<open>0xFF\<close>, where \<open>k\<close> is
  \<^verbatim>\<open>int(math.floor(C * (rate / 100.0)))\<close> in double precision and lies in \<open>[0, C]\<close>; the
  other \<open>C - k\<close> bytes are the next bytes of the file's content stream.  For 50 percent
  and \<open>C = 100\<close> the count \<open>k\<close> is 50.
\<close>

theorem chunk_layout:
  assumes "bytes_contract np"
    and "0 \<le> gen_compressible_percentage gen" and "gen_compressible_percentage gen \<le> 100"
    and "0 < gen_compressible_percentage gen \<longrightarrow>
           0 < gen_compressible_blockSize gen \<and> gen_compressible_blockSize gen \<le> 2 ^ 53"
    and "cg_rate g = of_int (gen_compressible_percentage gen)"
    and "cg_maxChunkSize g = effective_chunk_size gen"
    and "0 < cg_remaining g"
    and "C = min (cg_remaining g) (effective_chunk_size gen)"
  shows "\<exists>k bs g'.
           generateChunks_next np g = Inr (Some (replicate (nat k) 255 @ bs, g')) \<and>
           compressSize C (of_int (gen_compressible_percentage gen)) = Inr k \<and>
           0 \<le> k \<and> k \<le> C \<and>
           np_bytes np (C - k) (cg_rng g) = Inr (bs, cg_rng g') \<and>
           int (length bs) = C - k \<and>
           (gen_compressible_percentage gen = 50 \<and> C = 100 \<longrightarrow> k = 50)"
proof -
  have m: "0 < effective_chunk_size gen" "effective_chunk_size gen \<le> 2 ^ 53"
    using assms(4) by (simp_all add: effective_chunk_size_def MAX_CHUNK_SIZE_def KB_def)
  have c: "0 \<le> C" "C \<le> 2 ^ 53" using assms(7,8) m by simp_all
  obtain k where k: "compressSize C (of_int (gen_compressible_percentage gen)) = Inr k"
    "0 \<le> k" "k \<le> C"
    using compressSize_bounds[OF assms(2,3) c] by blast
  obtain bs r' where b: "np_bytes np (C - k) (cg_rng g) = Inr (bs, r')" "int (length bs) = C - k"
    using assms(1) k unfolding bytes_contract_def by (metis diff_ge_0_iff_ge)
  have "generateChunks_next np g =
          Inr (Some (replicate (nat k) 255 @ bs, g\<lparr>cg_rng := r', cg_remaining := cg_remaining g - C\<rparr>))"
    using assms(5,6,7,8) k b by (simp add: generateChunks_next_def Let_def)
  moreover have "gen_compressible_percentage gen = 50 \<and> C = 100 \<longrightarrow> k = 50"
    using k(1) compressSize_100_50 by auto
  ultimately show ?thesis using k b by auto
qed

theorem chunk_layout_witness:
  "\<exists>k bs g'.
     generateChunks_next test_np \<lparr>cg_rng = 0, cg_maxChunkSize = 100, cg_rate = 50, cg_remaining = 100\<rparr>
       = Inr (Some (replicate (nat k) 255 @ bs, g')) \<and>
     compressSize 100 50 = Inr k \<and> 0 \<le> k \<and> k \<le> 100 \<and>
     np_bytes test_np (100 - k) 0 = Inr (bs, cg_rng g') \<and>
     int (length bs) = 100 - k \<and> k = 50"
  using chunk_layout[OF test_np_bytes,
      of "default_config\<lparr>gen_compressible_percentage := 50, gen_compressible_blockSize := 100\<rparr>"
         "\<lparr>cg_rng = 0, cg_maxChunkSize = 100, cg_rate = 50, cg_remaining = 100\<rparr>" 100]
  by (simp add: effective_chunk_size_def)

section \<open>The builder keeps its invariant\<close>

lemma dir_ids_simps [simp]:
  "dir_ids (DirNode i p d pa cs) = i # concat (map dir_ids cs)"
  "dir_ids (FileNode p d pa seed sz) = []"
  "dir_ids (CopyNode p d pa src) = []"
proof -
  have "(\<lambda>x. map ident (filter isDir (flat x))) = dir_ids" by (rule ext) (simp add: dir_ids_def)
  then show "dir_ids (DirNode i p d pa cs) = i # concat (map dir_ids cs)"
    by (simp add: dir_ids_def map_concat filter_concat comp_def)
qed (simp_all add: dir_ids_def)

lemma addNode_absent: "q \<notin> set (dir_ids t) \<Longrightarrow> addNode q node t = t"
  by (induction t) (auto intro: map_idI)

lemma flat_setParent_leaf:
  "\<not> isDir node \<Longrightarrow> flat (setParent node q d) = [setParent node q d]"
  by (cases node) simp_all

lemma dir_entry_in_flat:
  "DirNode q p d pa [] \<in> set (flat t) \<Longrightarrow> q \<in> set (dir_ids t)"
  by (force simp: dir_ids_def)

lemma flat_addNode:
  assumes "distinct (dir_ids t)" and "DirNode q p d pa [] \<in> set (flat t)"
  shows "mset (flat (addNode q node t)) = mset (flat t) + mset (flat (setParent node q d))"
  using assms
proof (induction t)
  case (DirNode i p' d' pa' cs)
  show ?case
  proof (cases "i = q")
    case True
    have "q \<notin> set (concat (map dir_ids cs))" using DirNode.prems(1) True by simp
    then have "DirNode q p d pa [] \<notin> set (concat (map flat cs))"
      using dir_entry_in_flat by fastforce
    then have "d = d'" using DirNode.prems(2) True by auto
    then show ?thesis using True by simp
  next
    case False
    then obtain c where c: "c \<in> set cs" "DirNode q p d pa [] \<in> set (flat c)"
      using DirNode.prems(2) by auto
    then obtain xs ys where cs: "cs = xs @ c # ys" by (meson split_list)
    have qc: "q \<in> set (dir_ids c)" using c(2) by (rule dir_entry_in_flat)
    have dc: "distinct (dir_ids c)" using DirNode.prems(1) cs by simp
    have "\<forall>x \<in> set xs \<union> set ys. q \<notin> set (dir_ids x)"
      using DirNode.prems(1) qc cs by auto
    then have "map (addNode q node) xs = xs" "map (addNode q node) ys = ys"
      by (auto intro!: map_idI addNode_absent)
    then have "map (addNode q node) cs = xs @ addNode q node c # ys" by (simp add: cs)
    moreover have "mset (flat (addNode q node c)) = mset (flat c) + mset (flat (setParent node q d))"
      using DirNode.IH[OF c(1) dc c(2)] .
    ultimately show ?thesis using False by (simp add: cs)
  qed
qed simp_all


lemma flat_dir_entry:
  "n \<in> set (flat t) \<Longrightarrow> isDir n \<Longrightarrow> n = DirNode (ident n) (parent n) (depth n) (path n) []"
  by (induction t) auto

lemma deref_Some:
  "deref t q = Some n \<Longrightarrow>
     \<exists>p d pa cs. n = DirNode q p d pa cs \<and> DirNode q p d pa [] \<in> set (flat t)"
  "deref_list ts q = Some n \<Longrightarrow>
     \<exists>p d pa cs. n = DirNode q p d pa cs \<and> DirNode q p d pa [] \<in> set (concat (map flat ts))"
  by (induction t q and ts q rule: deref_deref_list.induct)
     (auto split: if_splits option.splits)

lemma deref_present:
  "q \<in> set (dir_ids t) \<Longrightarrow> deref t q \<noteq> None"
  "q \<in> set (concat (map dir_ids ts)) \<Longrightarrow> deref_list ts q \<noteq> None"
  by (induction t q and ts q rule: deref_deref_list.induct)
     (auto split: if_splits option.splits)

lemma py_index_Inr: "py_index xs i = Inr x \<Longrightarrow> x \<in> set xs"
  by (auto simp: py_index_def split: if_splits)

lemma choice_Inr: "choice np xs r = Inr (x, r') \<Longrightarrow> x \<in> set xs"
  by (auto simp: choice_def split: sum.splits prod.splits dest: py_index_Inr)

lemma choice_total:
  assumes "randint_contract np" "xs \<noteq> []"
  shows "\<exists>x r'. choice np xs r = Inr (x, r')"
proof -
  have "0 < int (length xs)" using assms(2) by simp
  then obtain v r' where v: "np_randint np (int (length xs)) r = Inr (v, r')" "0 \<le> v"
    "v < int (length xs)"
    using assms(1) unfolding randint_contract_def by blast
  then show ?thesis by (simp add: choice_def py_index_def)
qed

lemma mset_dir_ids: "mset (dir_ids t) = image_mset ident (filter_mset isDir (mset (flat t)))"
  by (simp add: dir_ids_def)

lemma isDir_setParent [simp]: "isDir (setParent node q d) = isDir node"
  by (cases node) simp_all

lemma attach_Inr:
  assumes "attach np gen node t = Inr t'"
  shows "\<exists>chosen r' p d pa.
    choice np (dirNodes t) (rng t) = Inr (chosen, r') \<and>
    DirNode chosen p d pa [] \<in> set (flat (root t)) \<and>
    (\<not> isDir node \<longrightarrow> t' = t\<lparr>rng := r', root := addNode chosen node (root t)\<rparr>) \<and>
    (isDir node \<and> \<not> (0 < d \<and> gen_dirs_maxDepth gen \<le> d) \<longrightarrow>
       t' = t\<lparr>rng := r', dirNodes := dirNodes t @ [ident node],
              root := addNode chosen node (root t)\<rparr>) \<and>
    (isDir node \<and> 0 < d \<and> gen_dirs_maxDepth gen \<le> d \<longrightarrow>
       (\<exists>q. p = Some q \<and> t' = t\<lparr>rng := r', dirNodes := dirNodes t @ [ident node],
              root := addNode q node (root t)\<rparr>))"
proof -
  from assms obtain chosen r' where c: "choice np (dirNodes t) (rng t) = Inr (chosen, r')"
    by (auto simp: attach_def split: sum.splits)
  from assms c obtain parent0 where d: "deref (root t) chosen = Some parent0"
    by (auto simp: attach_def split: option.splits)
  from deref_Some(1)[OF d] obtain p d0 pa cs where
    p: "parent0 = DirNode chosen p d0 pa cs" "DirNode chosen p d0 pa [] \<in> set (flat (root t))"
    by blast
  have "(\<not> isDir node \<longrightarrow> t' = t\<lparr>rng := r', root := addNode chosen node (root t)\<rparr>) \<and>
    (isDir node \<and> \<not> (0 < d0 \<and> gen_dirs_maxDepth gen \<le> d0) \<longrightarrow>
       t' = t\<lparr>rng := r', dirNodes := dirNodes t @ [ident node],
              root := addNode chosen node (root t)\<rparr>) \<and>
    (isDir node \<and> 0 < d0 \<and> gen_dirs_maxDepth gen \<le> d0 \<longrightarrow>
       (\<exists>q. p = Some q \<and> t' = t\<lparr>rng := r', dirNodes := dirNodes t @ [ident node],
              root := addNode q node (root t)\<rparr>))"
    using assms c d p(1)
    by (auto simp: attach_def Let_def split: option.splits if_splits)
  then show ?thesis using c p(2) by blast
qed

lemma builder_inv_attach_leaf:
  assumes "builder_inv t" "\<not> isDir node" "attach np gen node t = Inr t'"
  shows "builder_inv t' \<and> dirNodes t' = dirNodes t \<and> allocated t' = allocated t \<and>
         (\<exists>q d. mset (flat (root t')) = mset (flat (root t)) + {#setParent node q d#})"
proof -
  from attach_Inr[OF assms(3)] assms(2) obtain chosen r' p d pa where
    e: "DirNode chosen p d pa [] \<in> set (flat (root t))"
    and t': "t' = t\<lparr>rng := r', root := addNode chosen node (root t)\<rparr>"
    by blast
  have dist: "distinct (dir_ids (root t))" using assms(1) by (simp add: builder_inv_def)
  have m: "mset (flat (root t')) = mset (flat (root t)) + {#setParent node chosen d#}"
    using flat_addNode[OF dist e, of node] assms(2) by (simp add: t' flat_setParent_leaf)
  have ids: "mset (dir_ids (root t')) = mset (dir_ids (root t))"
    using assms(2) by (simp add: mset_dir_ids m)
  have s: "set (flat (root t')) = insert (setParent node chosen d) (set (flat (root t)))"
    using m by (metis set_mset_mset set_mset_add_mset_insert union_mset_add_mset_right add.right_neutral)
  have "builder_inv t'"
    using assms(1,2) mset_eq_setD[OF ids] mset_eq_imp_distinct_iff[OF ids]
    unfolding builder_inv_def s by (auto simp: t' split: option.splits; blast)
  then show ?thesis using m by (auto simp: t')
qed


lemma builder_inv_depth_nonneg:
  assumes "builder_inv t" "n \<in> set (flat (root t))" "isDir n"
  shows "0 \<le> depth n"
  using assms unfolding builder_inv_def by (fastforce split: option.splits)

lemma attach_dir_target:
  assumes "builder_inv t" and "\<forall>d\<in>set (dir_depths (root t)). d \<le> max 1 (gen_dirs_maxDepth gen)"
    and "attach np gen (DirNode j None 0 None []) t = Inr t'"
  shows "\<exists>q p d pa r'. DirNode q p d pa [] \<in> set (flat (root t)) \<and> 0 \<le> d \<and>
           d + 1 \<le> max 1 (gen_dirs_maxDepth gen) \<and>
           t' = t\<lparr>rng := r', dirNodes := dirNodes t @ [j],
                  root := addNode q (DirNode j None 0 None []) (root t)\<rparr>"
proof -
  from attach_Inr[OF assms(3)] obtain chosen r' p d pa where
    e: "DirNode chosen p d pa [] \<in> set (flat (root t))"
    and A': "isDir (DirNode j None 0 None []) \<and> \<not> (0 < d \<and> gen_dirs_maxDepth gen \<le> d) \<longrightarrow>
       t' = t\<lparr>rng := r', dirNodes := dirNodes t @ [ident (DirNode j None 0 None [])],
              root := addNode chosen (DirNode j None 0 None []) (root t)\<rparr>"
    and B': "isDir (DirNode j None 0 None []) \<and> 0 < d \<and> gen_dirs_maxDepth gen \<le> d \<longrightarrow>
       (\<exists>q. p = Some q \<and> t' = t\<lparr>rng := r', dirNodes := dirNodes t @ [ident (DirNode j None 0 None [])],
              root := addNode q (DirNode j None 0 None []) (root t)\<rparr>)"
    by blast
  have A: "\<not> (0 < d \<and> gen_dirs_maxDepth gen \<le> d) \<Longrightarrow>
       t' = t\<lparr>rng := r', dirNodes := dirNodes t @ [j],
              root := addNode chosen (DirNode j None 0 None []) (root t)\<rparr>"
    using A' by simp
  have B: "0 < d \<and> gen_dirs_maxDepth gen \<le> d \<Longrightarrow>
       (\<exists>q. p = Some q \<and> t' = t\<lparr>rng := r', dirNodes := dirNodes t @ [j],
              root := addNode q (DirNode j None 0 None []) (root t)\<rparr>)"
    using B' by simp
  have d0: "0 \<le> d" using builder_inv_depth_nonneg[OF assms(1) e] by simp
  show ?thesis
  proof (cases "0 < d \<and> gen_dirs_maxDepth gen \<le> d")
    case False
    then have "d + 1 \<le> max 1 (gen_dirs_maxDepth gen)" using d0 by auto
    then show ?thesis using A[OF False] e d0 by blast
  next
    case True
    from B[OF True] obtain q where q: "p = Some q"
      "t' = t\<lparr>rng := r', dirNodes := dirNodes t @ [j],
              root := addNode q (DirNode j None 0 None []) (root t)\<rparr>" by blast
    from assms(1) e q(1) obtain m where m: "m \<in> set (flat (root t))" "isDir m" "ident m = q"
      "0 \<le> depth m" "d = depth m + 1"
      unfolding builder_inv_def by fastforce
    have me: "DirNode q (parent m) (depth m) (path m) [] \<in> set (flat (root t))"
      using flat_dir_entry[OF m(1,2)] m(1,3) by simp
    have "d \<in> set (dir_depths (root t))" using e by (force simp: dir_depths_def)
    then have "depth m + 1 \<le> max 1 (gen_dirs_maxDepth gen)" using assms(2) m(5) by auto
    then show ?thesis using me m(4) q(2) by blast
  qed
qed

lemma builder_inv_attach_dir:
  assumes "builder_inv t" and "\<forall>d\<in>set (dir_depths (root t)). d \<le> max 1 (gen_dirs_maxDepth gen)"
    and "j \<notin> set (dir_ids (root t))" and "j < allocated t"
    and "attach np gen (DirNode j None 0 None []) t = Inr t'"
  shows "builder_inv t' \<and> (\<forall>d\<in>set (dir_depths (root t')). d \<le> max 1 (gen_dirs_maxDepth gen)) \<and>
         allocated t' = allocated t \<and> dirNodes t' = dirNodes t @ [j] \<and>
         count_files (root t') = count_files (root t)"
proof -
  from attach_dir_target[OF assms(1,2,5)] obtain q p d pa r' where
    e: "DirNode q p d pa [] \<in> set (flat (root t))" and d: "0 \<le> d"
      "d + 1 \<le> max 1 (gen_dirs_maxDepth gen)"
    and t': "t' = t\<lparr>rng := r', dirNodes := dirNodes t @ [j],
                  root := addNode q (DirNode j None 0 None []) (root t)\<rparr>"
    by blast
  have dist: "distinct (dir_ids (root t))" using assms(1) by (simp add: builder_inv_def)
  have m: "mset (flat (root t')) = mset (flat (root t)) + {#DirNode j (Some q) (d + 1) None []#}"
    using flat_addNode[OF dist e, of "DirNode j None 0 None []"] by (simp add: t')
  have ids: "mset (dir_ids (root t')) = mset (dir_ids (root t)) + {#j#}"
    by (simp add: mset_dir_ids m)
  have s: "set (flat (root t')) = insert (DirNode j (Some q) (d + 1) None []) (set (flat (root t)))"
    using m by (metis set_mset_mset set_mset_add_mset_insert union_mset_add_mset_right add.right_neutral)
  have ids_set: "set (dir_ids (root t')) = insert j (set (dir_ids (root t)))"
    using ids by (metis set_mset_mset set_mset_add_mset_insert union_mset_add_mset_right add.right_neutral)
  have "mset (dir_ids (root t')) = mset (j # dir_ids (root t))" using ids by simp
  then have dist': "distinct (dir_ids (root t'))"
    using mset_eq_imp_distinct_iff dist assms(3) by (metis distinct.simps(2))
  have par: "\<forall>n \<in> set (flat (root t')). isDir n \<longrightarrow>
        (case parent n of
           None \<Rightarrow> depth n = 0
         | Some q \<Rightarrow> \<exists>m \<in> set (flat (root t')). isDir m \<and> ident m = q \<and> 0 \<le> depth m \<and>
                       depth n = depth m + 1)"
  proof (intro ballI impI)
    fix n assume n: "n \<in> set (flat (root t'))" "isDir n"
    show "case parent n of
           None \<Rightarrow> depth n = 0
         | Some q \<Rightarrow> \<exists>m \<in> set (flat (root t')). isDir m \<and> ident m = q \<and> 0 \<le> depth m \<and>
                       depth n = depth m + 1"
    proof (cases "n = DirNode j (Some q) (d + 1) None []")
      case True
      then show ?thesis using e d(1) unfolding s by force
    next
      case False
      then have "n \<in> set (flat (root t))" using n(1) unfolding s by simp
      then show ?thesis using assms(1) n(2) unfolding builder_inv_def s
        by (auto split: option.splits; blast)
    qed
  qed
  have inv: "builder_inv t'"
    unfolding builder_inv_def using par dist' ids_set assms(1,4)
    by (auto simp: t' builder_inv_def)
  have dep: "\<forall>d\<in>set (dir_depths (root t')). d \<le> max 1 (gen_dirs_maxDepth gen)"
  proof
    fix x assume "x \<in> set (dir_depths (root t'))"
    then obtain n where n: "n \<in> set (flat (root t'))" "isDir n" "x = depth n"
      by (auto simp: dir_depths_def)
    show "x \<le> max 1 (gen_dirs_maxDepth gen)"
    proof (cases "n = DirNode j (Some q) (d + 1) None []")
      case True
      then show ?thesis using d(2) n(3) by simp
    next
      case False
      then have "n \<in> set (flat (root t))" using n(1) unfolding s by simp
      then have "x \<in> set (dir_depths (root t))" using n(2,3) by (auto simp: dir_depths_def)
      then show ?thesis using assms(2) by blast
    qed
  qed
  have "count_files (root t') = count_files (root t)"
    unfolding count_files_def using m
    by (metis (no_types, lifting) add.right_neutral filter_mset_add_mset filter_union_mset
        isFileNode.simps(1) mset_filter size_mset union_mset_add_mset_right filter_empty_mset)
  then show ?thesis using inv dep by (simp add: t')
qed

declare createFileNodes_loop.simps [simp del]

declare str_nat.simps [simp del]

lemma builder_inv_rng [simp]: "builder_inv (t\<lparr>rng := r\<rparr>) = builder_inv t"
  by (simp add: builder_inv_def cong: option.case_cong)

lemma count_files_mset: "count_files t = size (filter_mset isFileNode (mset (flat t)))"
  by (metis mset_filter size_mset count_files_def)

lemma mset_dir_depths: "mset (dir_depths t) = image_mset depth (filter_mset isDir (mset (flat t)))"
  by (simp add: dir_depths_def)

lemma isFileNode_setParent [simp]: "isFileNode (setParent node q d) = isFileNode node"
  by (cases node) simp_all

lemma attach_leaf:
  assumes "builder_inv t" "\<not> isDir node" "attach np gen node t = Inr t'"
  shows "builder_inv t' \<and> mset (dir_depths (root t')) = mset (dir_depths (root t)) \<and>
         count_files (root t') = count_files (root t) + (if isFileNode node then 1 else 0)"
proof -
  from builder_inv_attach_leaf[OF assms] obtain q d where
    i: "builder_inv t'" and m: "mset (flat (root t')) = mset (flat (root t)) + {#setParent node q d#}"
    by blast
  have "mset (dir_depths (root t')) = mset (dir_depths (root t))"
    using assms(2) by (simp add: mset_dir_depths m)
  moreover have "count_files (root t') = count_files (root t) + (if isFileNode node then 1 else 0)"
    by (simp add: count_files_mset m)
  ultimately show ?thesis using i by simp
qed

lemma attach_leaf_total:
  assumes "randint_contract np" "builder_inv t" "\<not> isDir node"
  shows "\<exists>t'. attach np gen node t = Inr t'"
proof -
  have ne: "dirNodes t \<noteq> []" using assms(2) by (simp add: builder_inv_def)
  from choice_total[OF assms(1) ne] obtain chosen r' where
    c: "choice np (dirNodes t) (rng t) = Inr (chosen, r')" by blast
  have "chosen \<in> set (dir_ids (root t))"
    using choice_Inr[OF c] assms(2) by (auto simp: builder_inv_def)
  then obtain par where "deref (root t) chosen = Some par"
    using deref_present(1) by blast
  then show ?thesis using c assms(3) by (simp add: attach_def)
qed

lemma attachCopies_leaf:
  assumes "builder_inv t" "\<not> isDir node" "attachCopies np gen node n t = Inr t'"
  shows "builder_inv t' \<and> mset (dir_depths (root t')) = mset (dir_depths (root t)) \<and>
         count_files (root t') = count_files (root t) + (if isFileNode node then n else 0)"
  using assms
proof (induction n arbitrary: t)
  case 0
  then show ?case by simp
next
  case (Suc n)
  from Suc.prems(3) obtain t1 where a: "attach np gen node t = Inr t1"
    and r: "attachCopies np gen node n t1 = Inr t'"
    by (auto split: sum.splits)
  from attach_leaf[OF Suc.prems(1,2) a] Suc.IH[OF _ Suc.prems(2) r]
  show ?case by auto
qed

lemma attachCopies_total:
  assumes "randint_contract np" "builder_inv t" "\<not> isDir node"
  shows "\<exists>t'. attachCopies np gen node n t = Inr t'"
  using assms(2)
proof (induction n arbitrary: t)
  case 0
  then show ?case by simp
next
  case (Suc n)
  from attach_leaf_total[OF assms(1) Suc.prems assms(3)] obtain t1 where
    a: "attach np gen node t = Inr t1" by blast
  from attach_leaf[OF Suc.prems assms(3) a] have "builder_inv t1" by simp
  from Suc.IH[OF this] a show ?case by simp
qed

lemma FileNode_init_Inr:
  "FileNode_init np cat r = Inr (node, r') \<Longrightarrow> \<exists>seed sz. node = FileNode None 0 None seed sz"
  by (auto simp: FileNode_init_def split: sum.splits)

lemma createFileNodes_loop_Inr:
  assumes "createFileNodes_loop np gen cat nF nC nL t = Inr t'"
    and "builder_inv t"
  shows "builder_inv t' \<and> mset (dir_depths (root t')) = mset (dir_depths (root t)) \<and>
         count_files (root t') = count_files (root t) + nat nF"
  using assms
proof (induction "nat nF" arbitrary: nF nC nL t rule: less_induct)
  case less
  show ?case
  proof (cases "0 < nF")
    case False
    then show ?thesis using less.prems by (subst (asm) createFileNodes_loop.simps) simp
  next
    case True
    note eq = less.prems(1)[unfolded createFileNodes_loop.simps[of np gen cat nF nC nL t]]
    from eq True obtain fileNode r1 where
      f: "FileNode_init np cat (rng t) = Inr (fileNode, r1)"
      by (cases "FileNode_init np cat (rng t)") auto
    then have leaf: "\<not> isDir fileNode" "isFileNode fileNode"
      using FileNode_init_Inr by fastforce+
    from eq True f obtain t1 where
      a: "attach np gen fileNode (t\<lparr>rng := r1\<rparr>) = Inr t1"
      by (cases "attach np gen fileNode (t\<lparr>rng := r1\<rparr>)") auto
    have t1: "builder_inv t1" "mset (dir_depths (root t1)) = mset (dir_depths (root t))"
      "count_files (root t1) = count_files (root t) + 1"
      using attach_leaf[OF _ leaf(1) a] less.prems(2) leaf(2) by simp_all
    from eq True f a obtain copies0 nC' nL' r2 where
      c: "coalescentCopies np (nF - 1) nC nL (rng t1) =
            Inr (copies0, nC', nL', r2)"
      by (cases "coalescentCopies np (nF - 1) nC nL (rng t1)") auto
    define copies where "copies = min copies0 (nF - 1)"
    show ?thesis
    proof (cases "0 < copies")
      case False
      then have r: "createFileNodes_loop np gen cat (nF - 1) nC' nL'
              (t1\<lparr>rng := r2\<rparr>) = Inr t'"
        using eq True f a c False by (auto simp: copies_def Let_def split: if_splits)
      have "nat (nF - 1) < nat nF" using True by simp
      from less.hyps[OF this r] t1 True show ?thesis by simp
    next
      case pos: True
      from eq True f a c pos obtain t2 where
        ac: "attachCopies np gen fileNode (nat copies) (t1\<lparr>rng := r2\<rparr>) = Inr t2"
        by (cases "attachCopies np gen fileNode (nat copies) (t1\<lparr>rng := r2\<rparr>)")
           (auto simp: copies_def Let_def split: if_splits)
      have t2: "builder_inv t2" "mset (dir_depths (root t2)) = mset (dir_depths (root t1))"
        "count_files (root t2) = count_files (root t1) + nat copies"
        using attachCopies_leaf[OF _ leaf(1) ac] t1(1) leaf(2) by simp_all
      have r: "createFileNodes_loop np gen cat (nF - 1 - copies) nC' nL' t2
                 = Inr t'"
        using eq True f a c pos ac by (auto simp: copies_def Let_def split: if_splits)
      have le: "copies \<le> nF - 1" by (simp add: copies_def Let_def)
      then have "nat (nF - 1 - copies) < nat nF" using True pos by simp
      from less.hyps[OF this r t2(1)] t1 t2 True pos le show ?thesis by simp
    qed
  qed
qed

section \<open>File nodes of a size category\<close>

lemma test_np_randint: "randint_contract test_np"
  by (simp add: randint_contract_def test_np_def)

lemma test_np_random_integers: "random_integers_contract test_np"
proof -
  have "lo + int r mod (hi - lo + 1) \<le> hi" if "lo \<le> hi" for lo hi :: int and r :: nat
  proof -
    have "0 < hi - lo + 1" using that by simp
    then have "int r mod (hi - lo + 1) < hi - lo + 1" by (rule pos_mod_bound)
    then show ?thesis by linarith
  qed
  then show ?thesis by (simp add: random_integers_contract_def test_np_def)
qed

lemma builder_inv_initial: "builder_inv (initial_tree r rootDir)"
  by (simp add: builder_inv_def initial_tree_def)

lemma FileNode_init_total:
  assumes "randint_contract np" "random_integers_contract np"
    "cat_min cat \<le> cat_max cat" "- (2 ^ 63) \<le> cat_min cat" "cat_max cat < 2 ^ 63"
  shows "\<exists>node r'. FileNode_init np cat r = Inr (node, r')"
proof -
  obtain vs r1 where "np_randint_size np 256 8 r = Inr (vs, r1)"
    using assms(1) unfolding randint_contract_def by blast
  moreover obtain v r2 where "np_random_integers np (cat_min cat) (cat_max cat) r1 = Inr (v, r2)"
    using assms(2-5) unfolding random_integers_contract_def by blast
  ultimately show ?thesis by (simp add: FileNode_init_def randomSeed_def)
qed

lemma coalescentCopies_total:
  assumes "random_integers_contract np"
  shows "\<exists>res. coalescentCopies np nF nC nL r = Inr res"
proof -
  obtain v r' where "np_random_integers np 1 3 r = Inr (v, r')"
  proof -
    have "(1::int) \<le> 3 \<and> - (2 ^ 63) \<le> (1::int) \<and> (3::int) < 2 ^ 63" by simp
    then show ?thesis using that assms unfolding random_integers_contract_def by blast
  qed
  then show ?thesis by (simp add: coalescentCopies_def Let_def)
qed


lemma createFileNodes_loop_total:
  assumes "randint_contract np" "random_integers_contract np"
    "cat_min cat \<le> cat_max cat" "- (2 ^ 63) \<le> cat_min cat" "cat_max cat < 2 ^ 63"
    and "builder_inv t"
  shows "\<exists>t'. createFileNodes_loop np gen cat nF nC nL t = Inr t'"
  using assms(6)
proof (induction "nat nF" arbitrary: nF nC nL t rule: less_induct)
  case less
  show ?case
  proof (cases "0 < nF")
    case False
    then show ?thesis by (subst createFileNodes_loop.simps) simp
  next
    case True
    obtain fileNode r1 where f: "FileNode_init np cat (rng t) = Inr (fileNode, r1)"
      using FileNode_init_total[OF assms(1-5)] by blast
    then have leaf: "\<not> isDir fileNode" using FileNode_init_Inr by fastforce
    have i0: "builder_inv (t\<lparr>rng := r1\<rparr>)" using less.prems by simp
    obtain t1 where a: "attach np gen fileNode (t\<lparr>rng := r1\<rparr>) = Inr t1"
      using attach_leaf_total[OF assms(1) i0 leaf] by blast
    have t1: "builder_inv t1" using attach_leaf[OF i0 leaf a] by simp
    obtain copies0 nC' nL' r2 where
      c: "coalescentCopies np (nF - 1) nC nL (rng t1) = Inr (copies0, nC', nL', r2)"
      using coalescentCopies_total[OF assms(2)] by (metis prod_cases4)
    define copies where "copies = min copies0 (nF - 1)"
    show ?thesis
    proof (cases "0 < copies")
      case False
      have "nat (nF - 1) < nat nF" using True by simp
      from less.hyps[OF this, of "t1\<lparr>rng := r2\<rparr>" nC' nL'] t1
      obtain t' where "createFileNodes_loop np gen cat (nF - 1) nC' nL' (t1\<lparr>rng := r2\<rparr>) = Inr t'"
        by auto
      then show ?thesis using True f a c False
        by (subst createFileNodes_loop.simps) (auto simp: copies_def Let_def)
    next
      case pos: True
      have i1: "builder_inv (t1\<lparr>rng := r2\<rparr>)" using t1 by simp
      obtain t2 where ac: "attachCopies np gen fileNode (nat copies) (t1\<lparr>rng := r2\<rparr>) = Inr t2"
        using attachCopies_total[OF assms(1) i1 leaf] by blast
      have t2: "builder_inv t2" using attachCopies_leaf[OF i1 leaf ac] by simp
      have "nat (nF - 1 - copies) < nat nF" using True pos by simp
      from less.hyps[OF this t2, of nC' nL']
      obtain t' where "createFileNodes_loop np gen cat (nF - 1 - copies) nC' nL' t2 = Inr t'"
        by auto
      then show ?thesis using True f a c pos ac
        by (subst createFileNodes_loop.simps) (auto simp: copies_def Let_def)
    qed
  qed
qed

text \<open>
  C10.  For a category with a non-negative file count, coalescence settings that do not
  exceed it and a size range \<open>[min, max]\<close> the generator can draw from,
  \<^verbatim>\<open>_createFileNodes\<close> returns and has added exactly \<^verbatim>\<open>category.num\<close> file nodes to the
  tree, base files and clones together, whatever values the generator draws.
\<close>

theorem createFileNodes_exact_count:
  assumes "randint_contract np" and "random_integers_contract np"
    and "builder_inv t"
    and "0 \<le> cat_num cat"
    and "cat_numCoalescent cat \<le> cat_num cat" and "cat_coalescent cat \<le> cat_num cat"
    and "cat_min cat \<le> cat_max cat" and "- (2 ^ 63) \<le> cat_min cat" and "cat_max cat < 2 ^ 63"
  shows "\<exists>t'. createFileNodes np gen cat t = Inr t' \<and>
           count_files (root t') = count_files (root t) + nat (cat_num cat)"
proof -
  obtain t' where l: "createFileNodes_loop np gen cat (cat_num cat) (cat_numCoalescent cat)
             (cat_coalescent cat) t = Inr t'"
    using createFileNodes_loop_total[OF assms(1,2,7,8,9,3)] by blast
  from createFileNodes_loop_Inr[OF l assms(3)] l assms(5,6)
  show ?thesis by (simp add: createFileNodes_def)
qed

theorem createFileNodes_exact_count_witness:
  "\<exists>t'. createFileNodes test_np default_config
          (default_category\<lparr>cat_num := 5, cat_numCoalescent := 2\<rparr>) (initial_tree 0 ''r'') = Inr t' \<and>
        count_files (root t') = 5"
  using createFileNodes_exact_count[OF test_np_randint test_np_random_integers
      builder_inv_initial[of 0 "''r''"],
      of "default_category\<lparr>cat_num := 5, cat_numCoalescent := 2\<rparr>" default_config]
  by (simp add: default_category_def count_files_def initial_tree_def)


lemma coalescentCopies_spec:
  assumes "coalescentCopies np remaining budget legacy r = Inr (copies0, budget', legacy', r')"
  shows "\<exists>draw. (min copies0 remaining, budget', legacy') =
                  spec_clone_count remaining budget legacy draw \<and>
                (if spec_draws remaining budget legacy
                 then np_random_integers np 1 3 r = Inr (draw, r') else r' = r)"
  using assms
  by (auto simp: coalescentCopies_def spec_clone_count_def spec_draws_def Let_def
      split: if_splits sum.splits)

text \<open>
  C6.  One iteration of the loop of \<^verbatim>\<open>_createFileNodes\<close>: a base file is created and
  attached; the clone count and the two counters afterwards are those of the
  specification's policy \<open>spec_clone_count\<close>, applied to the files still to create,
  with the draw made exactly when the policy needs one; that many clones are attached;
  and the loop goes on with the clones taken off the remaining files.
\<close>

theorem clone_count_policy:
  assumes "createFileNodes_loop np gen cat nF nC nL t = Inr t'" and "0 < nF"
  shows "\<exists>fileNode r1 t1 draw r2 clones nC' nL' t2.
           FileNode_init np cat (rng t) = Inr (fileNode, r1) \<and>
           attach np gen fileNode (t\<lparr>rng := r1\<rparr>) = Inr t1 \<and>
           (clones, nC', nL') = spec_clone_count (nF - 1) nC nL draw \<and>
           (if spec_draws (nF - 1) nC nL
            then np_random_integers np 1 3 (rng t1) = Inr (draw, r2) else r2 = rng t1) \<and>
           attachCopies np gen fileNode (nat clones) (t1\<lparr>rng := r2\<rparr>) = Inr t2 \<and>
           createFileNodes_loop np gen cat (nF - 1 - max 0 clones) nC' nL' t2 = Inr t'"
proof -
  note eq = assms(1)[unfolded createFileNodes_loop.simps[of np gen cat nF nC nL t]]
  from eq assms(2) obtain fileNode r1 where
    f: "FileNode_init np cat (rng t) = Inr (fileNode, r1)"
    by (cases "FileNode_init np cat (rng t)") auto
  from eq assms(2) f obtain t1 where
    a: "attach np gen fileNode (t\<lparr>rng := r1\<rparr>) = Inr t1"
    by (cases "attach np gen fileNode (t\<lparr>rng := r1\<rparr>)") auto
  from eq assms(2) f a obtain copies0 nC' nL' r2 where
    c: "coalescentCopies np (nF - 1) nC nL (rng t1) = Inr (copies0, nC', nL', r2)"
    by (cases "coalescentCopies np (nF - 1) nC nL (rng t1)") auto
  define clones where "clones = min copies0 (nF - 1)"
  from coalescentCopies_spec[OF c] obtain draw where
    d: "(clones, nC', nL') = spec_clone_count (nF - 1) nC nL draw"
    "if spec_draws (nF - 1) nC nL
     then np_random_integers np 1 3 (rng t1) = Inr (draw, r2) else r2 = rng t1"
    unfolding clones_def by blast
  have "\<exists>t2. attachCopies np gen fileNode (nat clones) (t1\<lparr>rng := r2\<rparr>) = Inr t2 \<and>
           createFileNodes_loop np gen cat (nF - 1 - max 0 clones) nC' nL' t2 = Inr t'"
  proof (cases "0 < clones")
    case False
    then have "createFileNodes_loop np gen cat (nF - 1) nC' nL' (t1\<lparr>rng := r2\<rparr>) = Inr t'"
      using eq assms(2) f a c by (auto simp: clones_def Let_def split: if_splits)
    then show ?thesis using False by simp
  next
    case True
    from eq assms(2) f a c True obtain t2 where
      ac: "attachCopies np gen fileNode (nat clones) (t1\<lparr>rng := r2\<rparr>) = Inr t2"
      by (cases "attachCopies np gen fileNode (nat clones) (t1\<lparr>rng := r2\<rparr>)")
         (auto simp: clones_def Let_def split: if_splits)
    have "createFileNodes_loop np gen cat (nF - 1 - clones) nC' nL' t2 = Inr t'"
      using eq assms(2) f a c True ac by (auto simp: clones_def Let_def split: if_splits)
    then show ?thesis using ac True by simp
  qed
  then show ?thesis using f a d by blast
qed

theorem clone_count_policy_witness:
  "\<exists>t'. createFileNodes_loop test_np default_config default_category 3 1 0
           (initial_tree 0 ''r'') = Inr t' \<and>
     (\<exists>fileNode r1 t1 draw r2 clones nC' nL' t2.
           FileNode_init test_np default_category (rng (initial_tree 0 ''r'')) = Inr (fileNode, r1) \<and>
           attach test_np default_config fileNode ((initial_tree 0 ''r'')\<lparr>rng := r1\<rparr>) = Inr t1 \<and>
           (clones, nC', nL') = spec_clone_count (3 - 1) 1 0 draw \<and>
           (if spec_draws (3 - 1) 1 0
            then np_random_integers test_np 1 3 (rng t1) = Inr (draw, r2) else r2 = rng t1) \<and>
           attachCopies test_np default_config fileNode (nat clones) (t1\<lparr>rng := r2\<rparr>) = Inr t2 \<and>
           createFileNodes_loop test_np default_config default_category (3 - 1 - max 0 clones) nC' nL' t2
             = Inr t')"
proof -
  have "cat_min default_category \<le> cat_max default_category"
    "- (2 ^ 63) \<le> cat_min default_category" "cat_max default_category < 2 ^ 63"
    by (simp_all add: default_category_def)
  from createFileNodes_loop_total[OF test_np_randint test_np_random_integers this
      builder_inv_initial, of default_config 3 1 0 0 "''r''"]
  obtain t' where r: "createFileNodes_loop test_np default_config default_category 3 1 0
           (initial_tree 0 ''r'') = Inr t'" by blast
  have "(0::int) < 3" by simp
  from clone_count_policy[OF r this] r show ?thesis by blast
qed

end
